theory Spec2Isabelle
  imports Main "HOL-Library.Sublist"
begin

section \<open>Text, bytes and paths\<close>

text \<open>
  The handler of \<^verbatim>\<open>src/app.py\<close> works on Python \<^verbatim>\<open>str\<close> and \<^verbatim>\<open>bytes\<close> values.
  Both are modelled as HOL strings: a \<^verbatim>\<open>bytes\<close> value is its list of bytes, a
  \<^verbatim>\<open>str\<close> value is the list of bytes of its UTF-8 encoding. The separators the
  code looks for (\<^verbatim>\<open>.\<close> and \<^verbatim>\<open>/\<close>) are ASCII, so searching, splitting and
  concatenating agree with Python on this representation. Paths follow
  \<^verbatim>\<open>posixpath\<close>.
\<close>

type_synonym path = string
type_synonym bytes = string

text \<open>
  \<^verbatim>\<open>s.lower()\<close>. A letter \<^verbatim>\<open>A\<close> to \<^verbatim>\<open>Z\<close> becomes the small letter and every
  other ASCII character stays, whatever surrounds it. What replaces a code point outside
  ASCII is decided by the Unicode data of the Python runtime, from the code point and, for
  the final sigma, from the text around it. That table is no part of the program: it is
  a parameter \<open>tbl\<close>, which gives for a text and the position of a byte outside ASCII
  the bytes that stand in its place after lowering.
\<close>

definition py_lower_char :: "char \<Rightarrow> char" where
  "py_lower_char c =
     (let n = (of_char c :: nat) in if 65 \<le> n \<and> n \<le> 90 then char_of (n + 32) else c)"

definition str_lower :: "(string \<Rightarrow> nat \<Rightarrow> string) \<Rightarrow> string \<Rightarrow> string" where
  "str_lower tbl s =
     concat (map (\<lambda>i. if (of_char (s ! i) :: nat) < 128 then [py_lower_char (s ! i)]
                        else tbl s i)
                 [0..<length s])"

text \<open>
  The lowering of the ASCII letters alone, every other byte kept. It decides the
  comparison of a lowered text with the word \<^verbatim>\<open>zip\<close>: no code point outside ASCII has
  a lower case made of the letters \<^verbatim>\<open>z\<close>, \<^verbatim>\<open>i\<close> and \<^verbatim>\<open>p\<close>, so a text that holds
  one is not equal to \<^verbatim>\<open>zip\<close> after lowering, with the table or without it.
\<close>

definition py_lower :: "string \<Rightarrow> string" where
  "py_lower s = map py_lower_char s"

text \<open>\<^verbatim>\<open>s.rfind(c)\<close>: the index of the last occurrence, \<open>-1\<close> when there is none.\<close>

definition rfind :: "char \<Rightarrow> string \<Rightarrow> int" where
  "rfind c s =
     (if c \<in> set s then int (length s) - 1 - int (length (takeWhile (\<lambda>x. x \<noteq> c) (rev s)))
      else - 1)"

text \<open>\<^verbatim>\<open>s.rsplit(c, 1)\<close>: split once at the last occurrence of the separator.\<close>

definition rsplit1 :: "char \<Rightarrow> string \<Rightarrow> string list" where
  "rsplit1 c s =
     (if c \<in> set s
      then [take (nat (rfind c s)) s, drop (nat (rfind c s) + 1) s]
      else [s])"

text \<open>\<^verbatim>\<open>s.rstrip(c)\<close> for a single character.\<close>

definition rstrip :: "char \<Rightarrow> string \<Rightarrow> string" where
  "rstrip c s = rev (dropWhile (\<lambda>x. x = c) (rev s))"

text \<open>
  \<^verbatim>\<open>os.path.join(a, b)\<close> of \<^verbatim>\<open>posixpath\<close>: an absolute second component
  replaces the first.
\<close>

definition join :: "path \<Rightarrow> path \<Rightarrow> path" where
  "join a b =
     (if take 1 b = ''/'' then b
      else if a = [] \<or> last a = CHR ''/'' then a @ b
      else a @ ''/'' @ b)"

text \<open>
  \<^verbatim>\<open>os.path.splitext(p)\<close> (\<^verbatim>\<open>genericpath._splitext\<close>): the extension starts at
  the last dot of the last component, unless only dots precede it there. The
  \<^verbatim>\<open>while\<close> loop that skips the leading dots is \<open>splitext_loop\<close>.
\<close>

function splitext_loop :: "string \<Rightarrow> nat \<Rightarrow> nat \<Rightarrow> string \<times> string" where
  "splitext_loop p filenameIndex dotIndex =
     (if filenameIndex < dotIndex
      then (if take 1 (drop filenameIndex p) \<noteq> ''.''
            then (take dotIndex p, drop dotIndex p)
            else splitext_loop p (filenameIndex + 1) dotIndex)
      else (p, []))"
  by pat_completeness auto
termination
  by (relation "measure (\<lambda>(p, i, d). d - i)") auto

definition splitext :: "path \<Rightarrow> string \<times> string" where
  "splitext p =
     (let sepIndex = rfind CHR ''/'' p; dotIndex = rfind CHR ''.'' p
      in if dotIndex > sepIndex
         then splitext_loop p (nat (sepIndex + 1)) (nat dotIndex)
         else (p, []))"

text \<open>\<^verbatim>\<open>os.path.dirname(p)\<close> of \<^verbatim>\<open>posixpath\<close>.\<close>

definition dirname :: "path \<Rightarrow> path" where
  "dirname p =
     (let i = nat (rfind CHR ''/'' p + 1); head = take i p
      in if head \<noteq> [] \<and> head \<noteq> replicate (length head) CHR ''/''
         then rstrip CHR ''/'' head
         else head)"

text \<open>
  \<^verbatim>\<open>b.decode()\<close>: strict UTF-8. It raises \<^verbatim>\<open>UnicodeDecodeError\<close> unless the bytes
  are well-formed UTF-8 (no stray continuation byte, no overlong form, no surrogate,
  nothing above U+10FFFF). With text held as its UTF-8 bytes, a successful decode returns
  the same bytes.
\<close>

datatype exn =
    ReadError
  | BadZipFile
  | FileNotFoundError
  | IsADirectoryError
  | UnicodeDecodeError

definition cont_byte :: "nat \<Rightarrow> bool" where
  "cont_byte b = (128 \<le> b \<and> b \<le> 191)"

fun utf8_wellformed :: "nat list \<Rightarrow> bool" where
  "utf8_wellformed [] = True"
| "utf8_wellformed (b # bs) =
     (if b < 128 then utf8_wellformed bs
      else if 194 \<le> b \<and> b \<le> 223 then
        (case bs of
           c1 # r \<Rightarrow> cont_byte c1 \<and> utf8_wellformed r
         | _ \<Rightarrow> False)
      else if 224 \<le> b \<and> b \<le> 239 then
        (case bs of
           c1 # c2 # r \<Rightarrow>
             (if b = 224 then 160 \<le> c1 \<and> c1 \<le> 191
              else if b = 237 then 128 \<le> c1 \<and> c1 \<le> 159
              else cont_byte c1)
             \<and> cont_byte c2 \<and> utf8_wellformed r
         | _ \<Rightarrow> False)
      else if 240 \<le> b \<and> b \<le> 244 then
        (case bs of
           c1 # c2 # c3 # r \<Rightarrow>
             (if b = 240 then 144 \<le> c1 \<and> c1 \<le> 191
              else if b = 244 then 128 \<le> c1 \<and> c1 \<le> 143
              else cont_byte c1)
             \<and> cont_byte c2 \<and> cont_byte c3 \<and> utf8_wellformed r
         | _ \<Rightarrow> False)
      else False)"

definition decode :: "bytes \<Rightarrow> exn + string" where
  "decode b = (if utf8_wellformed (map of_char b) then Inr b else Inl UnicodeDecodeError)"

section \<open>The operating system as the handler sees it\<close>

text \<open>
  A directory tree as \<^verbatim>\<open>os.scandir\<close> lists it: every node carries its name, a
  directory carries its entries in listing order.
\<close>

datatype tree = File string | Dir string "tree list"

text \<open>
  The handler's collaborators (the upload's \<^verbatim>\<open>save\<close>, \<^verbatim>\<open>shutil.unpack_archive\<close>,
  the directory listing behind \<^verbatim>\<open>os.walk\<close>, \<^verbatim>\<open>os.path.exists\<close>, writing a text
  file, \<^verbatim>\<open>subprocess.run\<close>) act on a world \<open>'w\<close> that the model leaves open: the
  filesystem and the container runtime. With them comes \<open>lower_table\<close>, the table of
  \<^verbatim>\<open>str.lower\<close> for the code points outside ASCII.

  What is modelled of their failures is what the data decides: saving the upload raises
  when its path cannot be opened (a filename with a directory part that does not exist)
  and leaves the world as it was; \<^verbatim>\<open>unpack_archive\<close> raises on an archive it cannot
  read, possibly after it has changed the world; a command exits with its code; output
  may not be UTF-8. Failures of the machine itself (a full disk, missing permissions, no
  \<^verbatim>\<open>docker\<close> executable) are not modelled: writing the Dockerfile into the directory
  that was just listed and spawning succeed. Log output is not modelled either, only the
  evaluation of the logged expressions, which can raise.
\<close>

record completed =
  returncode :: int
  stdout :: bytes
  stderr :: bytes

record 'w os =
  lower_table :: "string \<Rightarrow> nat \<Rightarrow> string"
  save :: "bytes \<Rightarrow> path \<Rightarrow> 'w \<Rightarrow> exn + 'w"
  unpack_archive :: "path \<Rightarrow> path \<Rightarrow> 'w \<Rightarrow> exn option \<times> 'w"
  dir_tree :: "path \<Rightarrow> 'w \<Rightarrow> tree list option"
  path_exists :: "path \<Rightarrow> 'w \<Rightarrow> bool"
  write_text :: "path \<Rightarrow> string \<Rightarrow> 'w \<Rightarrow> 'w"
  subprocess_run :: "string list \<Rightarrow> 'w \<Rightarrow> completed \<times> 'w"

text \<open>
  What the handler asks of its collaborators, in order: an entry is recorded when the call
  is made, whether or not it succeeds.
\<close>

datatype event =
    Save path bytes
  | Unpack path path
  | Write path string
  | Run "string list"

text \<open>
  \<^verbatim>\<open>os.walk(top)\<close>, top-down, links not followed: the triple of the directory itself,
  then the walks of its subdirectories in listing order. A path that is no directory
  yields nothing.
\<close>

fun dirnames :: "tree list \<Rightarrow> string list" where
  "dirnames [] = []"
| "dirnames (File n # es) = dirnames es"
| "dirnames (Dir n sub # es) = n # dirnames es"

fun nondirs :: "tree list \<Rightarrow> string list" where
  "nondirs [] = []"
| "nondirs (File n # es) = n # nondirs es"
| "nondirs (Dir n sub # es) = nondirs es"

fun walk_dir :: "path \<Rightarrow> tree list \<Rightarrow> (path \<times> string list \<times> string list) list"
  and walk_subdirs :: "path \<Rightarrow> tree list \<Rightarrow> (path \<times> string list \<times> string list) list"
where
  "walk_dir root entries =
     (root, dirnames entries, nondirs entries) # walk_subdirs root entries"
| "walk_subdirs root [] = []"
| "walk_subdirs root (File n # es) = walk_subdirs root es"
| "walk_subdirs root (Dir n sub # es) = walk_dir (join root n) sub @ walk_subdirs root es"

definition os_walk :: "'w os \<Rightarrow> 'w \<Rightarrow> path \<Rightarrow> (path \<times> string list \<times> string list) list" where
  "os_walk os w root_path =
     (case dir_tree os root_path w of
        None \<Rightarrow> []
      | Some entries \<Rightarrow> walk_dir root_path entries)"

section \<open>The program: \<^verbatim>\<open>src/app.py\<close>\<close>

subsection \<open>Configuration\<close>

definition UPLOAD_FOLDER :: path where
  "UPLOAD_FOLDER = ''./uploads''"

definition BUILD_FOLDER :: path where
  "BUILD_FOLDER = ''./builds''"

definition ALLOWED_EXTENSIONS :: "string set" where
  "ALLOWED_EXTENSIONS = {''zip''}"

subsection \<open>\<^verbatim>\<open>allowed_file\<close> and \<^verbatim>\<open>find_file\<close>\<close>

text \<open>
  \<^verbatim>\<open>'.' in filename and filename.rsplit('.', 1)[1].lower() in ALLOWED_EXTENSIONS\<close>.
  The index 1 is read only when the filename has a dot, where the split has two parts.
  The lowered extension is only compared with \<^verbatim>\<open>zip\<close>, which the ASCII letters decide
  (lemma \<open>allowed_file_by_table\<close> below).
\<close>

definition allowed_file :: "string \<Rightarrow> bool" where
  "allowed_file filename =
     (CHR ''.'' \<in> set filename \<and>
      py_lower (rsplit1 CHR ''.'' filename ! 1) \<in> ALLOWED_EXTENSIONS)"

text \<open>
  The loop of \<^verbatim>\<open>find_file\<close> over the triples of \<^verbatim>\<open>os.walk\<close>: the first
  directory whose files hold the name decides; \<^verbatim>\<open>None\<close> when the walk ends.
\<close>

fun find_file_loop :: "(path \<times> string list \<times> string list) list \<Rightarrow> string \<Rightarrow> path option" where
  "find_file_loop [] filename = None"
| "find_file_loop ((root, dirs, files) # rest) filename =
     (if filename \<in> set files then Some (join root filename)
      else find_file_loop rest filename)"

definition find_file :: "'w os \<Rightarrow> 'w \<Rightarrow> path \<Rightarrow> string \<Rightarrow> path option" where
  "find_file os w root_path filename = find_file_loop (os_walk os w root_path) filename"

subsection \<open>Requests and responses\<close>

text \<open>
  \<^verbatim>\<open>request.files\<close> maps a field name to the uploaded file; \<^verbatim>\<open>jsonify(d), code\<close>
  is a JSON object (its keys and string values, in the order of the source) with a
  status code. An exception that leaves the handler is \<open>Inl\<close>: the handler has produced
  no response of its own then.
\<close>

record file_storage =
  filename :: string
  content :: bytes

record request =
  files :: "(string \<times> file_storage) list"

record response =
  body :: "(string \<times> string) list"
  status :: nat

definition jsonify :: "(string \<times> string) list \<Rightarrow> nat \<Rightarrow> response" where
  "jsonify d code = \<lparr>body = d, status = code\<rparr>"

subsection \<open>The default Dockerfile\<close>

text \<open>
  The text between the triple quotes of lines 65 to 73: it starts with a newline, every
  line is indented by 16 spaces, and the indentation of the closing quotes ends it.
\<close>

definition indent :: string where
  "indent = replicate 16 CHR '' ''"

definition DEFAULT_DOCKERFILE :: string where
  "DEFAULT_DOCKERFILE =
     [CHR 0x0A]
     @ indent @ ''FROM node:16'' @ [CHR 0x0A]
     @ indent @ ''WORKDIR /app'' @ [CHR 0x0A]
     @ indent @ ''COPY package*.json ./'' @ [CHR 0x0A]
     @ indent @ ''RUN npm install'' @ [CHR 0x0A]
     @ indent @ ''COPY . .'' @ [CHR 0x0A]
     @ indent @ ''EXPOSE 3000'' @ [CHR 0x0A]
     @ indent @ ''CMD ['' @ [CHR 0x22] @ ''npm'' @ [CHR 0x22] @ '', ''
              @ [CHR 0x22] @ ''start'' @ [CHR 0x22] @ '']'' @ [CHR 0x0A]
     @ indent"

text \<open>
  Lines 61 to 74: the Dockerfile beside \<^verbatim>\<open>package.json\<close> is written only when
  \<^verbatim>\<open>os.path.exists\<close> finds nothing at its path.
\<close>

definition ensure_dockerfile :: "'w os \<Rightarrow> path \<Rightarrow> 'w \<Rightarrow> 'w \<times> event list" where
  "ensure_dockerfile os package_json_path w =
     (let dockerfile_path = join (dirname package_json_path) ''Dockerfile''
      in if \<not> path_exists os dockerfile_path w
         then (write_text os dockerfile_path DEFAULT_DOCKERFILE w,
               [Write dockerfile_path DEFAULT_DOCKERFILE])
         else (w, []))"

subsection \<open>Building and running the container\<close>

text \<open>Lines 77 and 78: the names are made from the filename alone.\<close>

definition image_name_of :: "'w os \<Rightarrow> string \<Rightarrow> string" where
  "image_name_of os fname = str_lower (lower_table os) (fst (splitext fname)) @ ''-image''"

definition container_name_of :: "'w os \<Rightarrow> string \<Rightarrow> string" where
  "container_name_of os fname =
     str_lower (lower_table os) (fst (splitext fname)) @ ''-container''"

definition build_cmd :: "string \<Rightarrow> path \<Rightarrow> string list" where
  "build_cmd image_name context = [''docker'', ''build'', ''-t'', image_name, context]"

definition rm_cmd :: "string \<Rightarrow> string list" where
  "rm_cmd container_name = [''docker'', ''rm'', ''-f'', container_name]"

definition run_cmd :: "string \<Rightarrow> string \<Rightarrow> string list" where
  "run_cmd container_name image_name =
     [''docker'', ''run'', ''-d'', ''--name'', container_name, ''-p'', ''3000:3000'', image_name]"

text \<open>
  Lines 110 to 112, the handler of \<^verbatim>\<open>CalledProcessError\<close>: the response carries the
  decoded standard error of the command that failed.
\<close>

definition on_called_process_error :: "bytes \<Rightarrow> exn + response" where
  "on_called_process_error err =
     (case decode err of
        Inl e \<Rightarrow> Inl e
      | Inr text \<Rightarrow> Inr (jsonify [(''error'', ''Docker error: '' @ text)] 500))"

text \<open>
  Lines 80 to 108, the \<^verbatim>\<open>try\<close> block. \<^verbatim>\<open>check=True\<close> raises
  \<^verbatim>\<open>CalledProcessError\<close> on a non-zero exit code, for the build and for the run; the
  removal in between is run without it and its result is dropped. The two log lines
  after each checked command decode its output.
\<close>

definition docker_stage ::
  "'w os \<Rightarrow> string \<Rightarrow> string \<Rightarrow> path \<Rightarrow> 'w \<Rightarrow> (exn + response) \<times> 'w \<times> event list" where
  "docker_stage os image_name container_name context w =
     (let (build_process, w1) = subprocess_run os (build_cmd image_name context) w;
          built = [Run (build_cmd image_name context)]
      in if returncode build_process \<noteq> 0
         then (on_called_process_error (stderr build_process), w1, built)
         else (case decode (stdout build_process) of
                 Inl e \<Rightarrow> (Inl e, w1, built)
               | Inr _ \<Rightarrow>
           (case decode (stderr build_process) of
                 Inl e \<Rightarrow> (Inl e, w1, built)
               | Inr _ \<Rightarrow>
             (let (rm_process, w2) = subprocess_run os (rm_cmd container_name) w1;
                  (run_process, w3) =
                     subprocess_run os (run_cmd container_name image_name) w2;
                  invoked = built @ [Run (rm_cmd container_name),
                                 Run (run_cmd container_name image_name)]
              in if returncode run_process \<noteq> 0
                 then (on_called_process_error (stderr run_process), w3, invoked)
                 else (case decode (stdout run_process) of
                         Inl e \<Rightarrow> (Inl e, w3, invoked)
                       | Inr _ \<Rightarrow>
                   (case decode (stderr run_process) of
                         Inl e \<Rightarrow> (Inl e, w3, invoked)
                       | Inr _ \<Rightarrow>
                          (Inr (jsonify
                             [(''message'',
                               ''File uploaded and Docker container started successfully''),
                              (''docker_image'', image_name),
                              (''docker_container'', container_name)] 200),
                           w3, invoked)))))))"

subsection \<open>\<^verbatim>\<open>upload_file\<close>\<close>

text \<open>
  Lines 56 to 112, what the handler does with the extracted directory: it looks for the
  manifest, writes the Dockerfile where there is none, builds and runs.
\<close>

definition deploy_extracted ::
  "'w os \<Rightarrow> string \<Rightarrow> path \<Rightarrow> 'w \<Rightarrow> (exn + response) \<times> 'w \<times> event list" where
  "deploy_extracted os fname extract_path w =
     (case find_file os w extract_path ''package.json'' of
        None \<Rightarrow>
          (Inr (jsonify
             [(''error'', ''package.json not found in the extracted ZIP.'')] 400),
           w, [])
      | Some package_json_path \<Rightarrow>
          (let (w3, written) = ensure_dockerfile os package_json_path w;
               (result, w4, invoked) =
                  docker_stage os (image_name_of os fname) (container_name_of os fname)
                    (dirname package_json_path) w3
           in (result, w4, written @ invoked)))"

text \<open>
  The handler returns its outcome, the world it leaves and what it asked of its
  collaborators. \<^verbatim>\<open>if file\<close> on line 45 is the truth value of the upload, which is
  that of its filename. An exception of \<^verbatim>\<open>file.save\<close> or of \<^verbatim>\<open>unpack_archive\<close>
  (lines 48 and 53, both outside the \<^verbatim>\<open>try\<close> block) ends the run.
\<close>

definition upload_file ::
  "'w os \<Rightarrow> request \<Rightarrow> 'w \<Rightarrow> (exn + response) \<times> 'w \<times> event list" where
  "upload_file os req w =
     (case map_of (files req) ''file'' of
        None \<Rightarrow> (Inr (jsonify [(''error'', ''No file part in the request'')] 400), w, [])
      | Some file \<Rightarrow>
          if filename file = [] then
            (Inr (jsonify [(''error'', ''No selected file'')] 400), w, [])
          else if filename file \<noteq> [] \<and> allowed_file (filename file) then
            (let filepath = join UPLOAD_FOLDER (filename file)
             in case save os (content file) filepath w of
                  Inl e \<Rightarrow> (Inl e, w, [Save filepath (content file)])
                | Inr w1 \<Rightarrow>
                    (let extract_path = join BUILD_FOLDER (fst (splitext (filename file)));
                         (raised, w2) = unpack_archive os filepath extract_path w1;
                         extracted = [Save filepath (content file),
                                      Unpack filepath extract_path]
                     in case raised of
                          Some e \<Rightarrow> (Inl e, w2, extracted)
                        | None \<Rightarrow>
                            (let (result, w3, events) =
                                   deploy_extracted os (filename file) extract_path w2
                             in (result, w3, extracted @ events))))
          else
            (Inr (jsonify
               [(''error'', ''Invalid file format. Only .zip files are allowed.'')] 400),
             w, []))"

section \<open>Notions of the specification\<close>

text \<open>
  The accepted extension, in the words of the specification: the filename ends in
  \<^verbatim>\<open>.zip\<close>, compared without regard to case.
\<close>

definition has_zip_extension :: "string \<Rightarrow> bool" where
  "has_zip_extension fname = (py_lower (drop (length fname - 4) fname) = ''.zip'')"

text \<open>
  The base name of an archive, in the words of the specification: the last component of
  the filename, without its last dot and what follows it.
\<close>

definition spec_base_name :: "string \<Rightarrow> string" where
  "spec_base_name fname =
     (let name = drop (nat (rfind CHR ''/'' fname + 1)) fname
      in if CHR ''.'' \<in> set name then take (nat (rfind CHR ''.'' name)) name else name)"

text \<open>A tree contains a file of a given name, at any depth.\<close>

fun contains_file :: "string \<Rightarrow> tree list \<Rightarrow> bool" where
  "contains_file name [] = False"
| "contains_file name (File n # es) = (n = name \<or> contains_file name es)"
| "contains_file name (Dir n sub # es) = (contains_file name sub \<or> contains_file name es)"

text \<open>
  The names in a directory listing are not empty and hold no separator; only the names of
  the directories matter below.
\<close>

fun plain_names :: "tree list \<Rightarrow> bool" where
  "plain_names [] = True"
| "plain_names (File n # es) = plain_names es"
| "plain_names (Dir n sub # es) =
     (n \<noteq> [] \<and> CHR ''/'' \<notin> set n \<and> plain_names sub \<and> plain_names es)"

text \<open>
  A relative path lies within a relative directory when, read component by component
  (\<^verbatim>\<open>.\<close> and empty components dropped, \<^verbatim>\<open>..\<close> leaving the component before it),
  it starts with the components of the directory.
\<close>

fun split_sep :: "char \<Rightarrow> string \<Rightarrow> string list" where
  "split_sep c [] = [[]]"
| "split_sep c (x # xs) =
     (if x = c then [] # split_sep c xs
      else (case split_sep c xs of
              [] \<Rightarrow> [[x]]
            | part # parts \<Rightarrow> (x # part) # parts))"

definition norm_step :: "string list \<Rightarrow> string \<Rightarrow> string list" where
  "norm_step seen part =
     (if part = [] \<or> part = ''.'' then seen
      else if part = ''..'' then
        (if seen = [] \<or> last seen = ''..'' then seen @ [part] else butlast seen)
      else seen @ [part])"

definition norm_components :: "path \<Rightarrow> string list" where
  "norm_components p = foldl norm_step [] (split_sep CHR ''/'' p)"

definition lies_within :: "path \<Rightarrow> path \<Rightarrow> bool" where
  "lies_within dir p =
     (take 1 p \<noteq> ''/'' \<and> prefix (norm_components dir) (norm_components p))"

section \<open>A small operating system to run the handler on\<close>

text \<open>
  A machine to evaluate the handler on. Its working directory is the root of its
  filesystem and holds the directories \<^verbatim>\<open>uploads\<close> and \<^verbatim>\<open>builds\<close>, which lines 13 and
  14 of the program create. The filesystem is a directory tree; the bytes of the files
  that were saved or written are kept beside it. Paths are resolved component by
  component (\<^verbatim>\<open>.\<close> and empty components dropped, \<^verbatim>\<open>..\<close> going up one directory).
\<close>

record sim =
  tree_root :: "tree list"
  blobs :: "(string list \<times> bytes) list"
  running :: "string list"

definition sim_step :: "string list \<Rightarrow> string \<Rightarrow> string list" where
  "sim_step seen part =
     (if part = [] \<or> part = ''.'' then seen
      else if part = ''..'' then butlast seen
      else seen @ [part])"

definition sim_path :: "path \<Rightarrow> string list" where
  "sim_path p = foldl sim_step [] (split_sep CHR ''/'' p)"

fun find_dir :: "string \<Rightarrow> tree list \<Rightarrow> tree list option" where
  "find_dir d [] = None"
| "find_dir d (File n # es) = find_dir d es"
| "find_dir d (Dir n sub # es) = (if n = d then Some sub else find_dir d es)"

fun lookup_dir :: "string list \<Rightarrow> tree list \<Rightarrow> tree list option" where
  "lookup_dir [] es = Some es"
| "lookup_dir (d # ds) es =
     (case find_dir d es of None \<Rightarrow> None | Some sub \<Rightarrow> lookup_dir ds sub)"

definition sim_exists :: "string list \<Rightarrow> tree list \<Rightarrow> bool" where
  "sim_exists comps es =
     (if comps = [] then True
      else (case lookup_dir (butlast comps) es of
              None \<Rightarrow> False
            | Some entries \<Rightarrow> last comps \<in> set (nondirs entries @ dirnames entries)))"

text \<open>
  Changing the entries of a directory, which is created when it is missing; adding a file
  to a listing, where a file of that name keeps its place.
\<close>

fun update_dir :: "string \<Rightarrow> (tree list \<Rightarrow> tree list) \<Rightarrow> tree list \<Rightarrow> tree list" where
  "update_dir d g [] = [Dir d (g [])]"
| "update_dir d g (File n # es) = File n # update_dir d g es"
| "update_dir d g (Dir n sub # es) =
     (if n = d then Dir n (g sub) # es else Dir n sub # update_dir d g es)"

fun update_at :: "string list \<Rightarrow> (tree list \<Rightarrow> tree list) \<Rightarrow> tree list \<Rightarrow> tree list" where
  "update_at [] g es = g es"
| "update_at (d # ds) g es = update_dir d (update_at ds g) es"

definition add_file :: "string \<Rightarrow> tree list \<Rightarrow> tree list" where
  "add_file n es = (if n \<in> set (nondirs es) then es else es @ [File n])"

text \<open>
  Extraction writes the files of the archive over the directory that is there: what the
  archive holds is added or replaced, what an earlier extraction left stays.
\<close>

fun merge_tree :: "tree list \<Rightarrow> tree list \<Rightarrow> tree list" where
  "merge_tree [] es = es"
| "merge_tree (File n # rest) es = merge_tree rest (add_file n es)"
| "merge_tree (Dir n sub # rest) es = merge_tree rest (update_dir n (merge_tree sub) es)"

text \<open>
  Saving needs the directory of the path to exist. An archive is read from the bytes
  that were saved: \<open>sim_unzip\<close> knows two archives, a project with its manifest in
  \<^verbatim>\<open>sub/pkg\<close> and one without a manifest, and one whose central directory is damaged.
  As \<^verbatim>\<open>shutil.unpack_archive\<close> does, \<open>sim_unpack\<close> takes the format from the end of the
  file name, in the case it is written in.
\<close>

definition sim_save :: "bytes \<Rightarrow> path \<Rightarrow> sim \<Rightarrow> exn + sim" where
  "sim_save b p w =
     (let comps = sim_path p
      in if comps = [] then Inl IsADirectoryError
         else (case lookup_dir (butlast comps) (tree_root w) of
                 None \<Rightarrow> Inl FileNotFoundError
               | Some entries \<Rightarrow>
                   if last comps \<in> set (dirnames entries) then Inl IsADirectoryError
                   else Inr (w\<lparr>tree_root :=
                                  update_at (butlast comps) (add_file (last comps)) (tree_root w),
                               blobs := (comps, b) # blobs w\<rparr>)))"

definition sim_unzip :: "bytes \<Rightarrow> exn + tree list" where
  "sim_unzip b =
     (if b = ''demo'' then Inr [Dir ''sub'' [Dir ''pkg'' [File ''index.js'', File ''package.json'']]]
      else if b = ''noapp'' then Inr [File ''README.md'', Dir ''src'' [File ''main.py'']]
      else if b = ''damaged'' then Inl BadZipFile
      else Inl ReadError)"

definition sim_unpack :: "path \<Rightarrow> path \<Rightarrow> sim \<Rightarrow> exn option \<times> sim" where
  "sim_unpack src dst w =
     (if suffix ''.zip'' src then
        (case map_of (blobs w) (sim_path src) of
           None \<Rightarrow> (Some ReadError, w)
         | Some b \<Rightarrow>
             (case sim_unzip b of
                Inl e \<Rightarrow> (Some e, w)
              | Inr entries \<Rightarrow>
                  (None, w\<lparr>tree_root :=
                             update_at (sim_path dst) (merge_tree entries) (tree_root w)\<rparr>)))
      else (Some ReadError, w))"

definition sim_write :: "path \<Rightarrow> string \<Rightarrow> sim \<Rightarrow> sim" where
  "sim_write p c w =
     (let comps = sim_path p
      in if comps = [] then w
         else w\<lparr>tree_root := update_at (butlast comps) (add_file (last comps)) (tree_root w),
                blobs := (comps, c) # blobs w\<rparr>)"

text \<open>
  The container runtime: the build command answers with the result it is given;
  removing a container that does not run exits with 1; the run command starts the
  container.
\<close>

definition sim_run :: "completed \<Rightarrow> string list \<Rightarrow> sim \<Rightarrow> completed \<times> sim" where
  "sim_run build_result argv w =
     (if take 2 argv = [''docker'', ''build''] then (build_result, w)
      else if take 3 argv = [''docker'', ''rm'', ''-f''] then
        (if set (drop 3 argv) \<inter> set (running w) = {}
         then (\<lparr>returncode = 1, stdout = [], stderr = ''No such container''\<rparr>, w)
         else (\<lparr>returncode = 0, stdout = [], stderr = []\<rparr>,
               w\<lparr>running := filter (\<lambda>c. c \<notin> set (drop 3 argv)) (running w)\<rparr>))
      else if take 4 argv = [''docker'', ''run'', ''-d'', ''--name''] then
        (\<lparr>returncode = 0, stdout = ''c0ffee'', stderr = []\<rparr>,
         w\<lparr>running := take 1 (drop 4 argv) @ running w\<rparr>)
      else (\<lparr>returncode = 127, stdout = [], stderr = []\<rparr>, w))"

text \<open>
  The part of the lower-case table this machine knows: the capital letters of the Latin-1
  supplement, U+00C0 to U+00DE without the multiplication sign. In UTF-8 they are the byte
  \<^verbatim>\<open>C3\<close> and a second byte, which lowering raises by 32. Other code points stay.
\<close>

definition latin1_lower :: "string \<Rightarrow> nat \<Rightarrow> string" where
  "latin1_lower s i =
     (let b = (of_char (s ! i) :: nat)
      in if 0 < i \<and> (of_char (s ! (i - 1)) :: nat) = 195 \<and> 128 \<le> b \<and> b \<le> 158 \<and> b \<noteq> 151
         then [char_of (b + 32)] else [s ! i])"

definition sim_os :: "completed \<Rightarrow> sim os" where
  "sim_os build_result =
     \<lparr>lower_table = latin1_lower,
      save = sim_save,
      unpack_archive = sim_unpack,
      dir_tree = (\<lambda>p w. lookup_dir (sim_path p) (tree_root w)),
      path_exists = (\<lambda>p w. sim_exists (sim_path p) (tree_root w)),
      write_text = sim_write,
      subprocess_run = sim_run build_result\<rparr>"

definition sim_empty :: sim where
  "sim_empty = \<lparr>tree_root = [Dir ''uploads'' [], Dir ''builds'' []], blobs = [], running = []\<rparr>"

definition build_ok :: completed where
  "build_ok = \<lparr>returncode = 0, stdout = ''Successfully built'', stderr = []\<rparr>"

definition upload :: "string \<Rightarrow> bytes \<Rightarrow> request" where
  "upload fname b = \<lparr>files = [(''file'', \<lparr>filename = fname, content = b\<rparr>)]\<rparr>"

text \<open>Worlds and command results for the runs that are evaluated below.\<close>

definition sim_deployed :: sim where
  "sim_deployed = sim_empty\<lparr>running := [''demo-container'']\<rparr>"

text \<open>
  The machine after the project was extracted to \<^verbatim>\<open>./builds/demo\<close>, without a
  Dockerfile and with one of the project's own.
\<close>

definition sim_extracted :: sim where
  "sim_extracted =
     \<lparr>tree_root =
        [Dir ''uploads'' [File ''demo.zip''],
         Dir ''builds''
           [Dir ''demo'' [Dir ''sub'' [Dir ''pkg'' [File ''index.js'', File ''package.json'']]]]],
      blobs = [([''uploads'', ''demo.zip''], ''demo'')],
      running = []\<rparr>"


text \<open>
  The machine after an upload named \<^verbatim>\<open>noapp.zip\<close> that held the project with its
  manifest: \<^verbatim>\<open>./builds/noapp\<close> holds \<^verbatim>\<open>sub/pkg/package.json\<close>.
\<close>

definition sim_stale :: sim where
  "sim_stale = fst (snd (upload_file (sim_os build_ok) (upload ''noapp.zip'' ''demo'') sim_empty))"

definition build_failed :: completed where
  "build_failed = \<lparr>returncode = 1, stdout = [], stderr = ''npm ERR! missing script''\<rparr>"

definition build_refused :: completed where
  "build_refused = \<lparr>returncode = 1, stdout = [], stderr = ''invalid reference format''\<rparr>"

text \<open>
  Build output that is not valid UTF-8: the log line of a build step that printed
  \<^verbatim>\<open>caf\<close> followed by the Latin-1 byte \<^verbatim>\<open>E9\<close>, once from a build that exits with 0
  and once from one that exits with 1.
\<close>

definition build_latin1 :: completed where
  "build_latin1 = \<lparr>returncode = 0, stdout = [], stderr = ''#5 0.2 caf'' @ [CHR 0xE9]\<rparr>"

definition build_failed_latin1 :: completed where
  "build_failed_latin1 =
     \<lparr>returncode = 1, stdout = [], stderr = ''#5 0.2 caf'' @ [CHR 0xE9]\<rparr>"

text \<open>
  The same operating system, except that the removal command \<^verbatim>\<open>docker rm -f\<close> reports
  what \<open>rm_result\<close> says (exit code and output) while doing to the world what it did.
\<close>

definition with_rm_result :: "(string list \<Rightarrow> 'w \<Rightarrow> completed) \<Rightarrow> 'w os \<Rightarrow> 'w os" where
  "with_rm_result rm_result os =
     os\<lparr>subprocess_run :=
          (\<lambda>argv w. if take 3 argv = [''docker'', ''rm'', ''-f'']
                    then (rm_result argv w, snd (subprocess_run os argv w))
                    else subprocess_run os argv w)\<rparr>"

section \<open>Facts about the text functions\<close>

lemma py_lower_char_dot: "py_lower_char c = CHR ''.'' \<longleftrightarrow> c = CHR ''.''"
proof
  assume h: "py_lower_char c = CHR ''.''"
  show "c = CHR ''.''"
  proof (cases "65 \<le> (of_char c :: nat) \<and> (of_char c :: nat) \<le> 90")
    case True
    then have "char_of (of_char c + 32 :: nat) = CHR ''.''"
      using h by (simp add: py_lower_char_def Let_def)
    then have "(of_char (char_of (of_char c + 32 :: nat)) :: nat) = of_char CHR ''.''"
      by simp
    then have "(of_char c + 32 :: nat) mod 256 = 46" by simp
    with True show ?thesis by simp
  next
    case False
    with h show ?thesis by (auto simp: py_lower_char_def Let_def split: if_splits)
  qed
next
  assume "c = CHR ''.''"
  then show "py_lower_char c = CHR ''.''" by (simp add: py_lower_char_def)
qed

lemma rfind_last: "c \<notin> set ext \<Longrightarrow> rfind c (pre @ c # ext) = int (length pre)"
proof -
  assume h: "c \<notin> set ext"
  have "takeWhile (\<lambda>x. x \<noteq> c) (rev ext @ c # rev pre)
          = rev ext @ takeWhile (\<lambda>x. x \<noteq> c) (c # rev pre)"
    by (rule takeWhile_append2) (use h in auto)
  then have "takeWhile (\<lambda>x. x \<noteq> c) (rev ext @ c # rev pre) = rev ext"
    by simp
  then show ?thesis by (simp add: rfind_def)
qed

lemma rsplit1_last: "c \<notin> set ext \<Longrightarrow> rsplit1 c (pre @ c # ext) = [pre, ext]"
  by (simp add: rsplit1_def rfind_last)

lemma allowed_file_iff:
  "allowed_file fname \<longleftrightarrow>
     (\<exists>pre ext. fname = pre @ CHR ''.'' # ext \<and> CHR ''.'' \<notin> set ext \<and> py_lower ext = ''zip'')"
proof
  assume a: "allowed_file fname"
  then have "CHR ''.'' \<in> set fname" by (simp add: allowed_file_def)
  then obtain pre ext where d: "fname = pre @ CHR ''.'' # ext" "CHR ''.'' \<notin> set ext"
    by (meson split_list_last)
  with a have "py_lower ext = ''zip''"
    by (simp add: allowed_file_def rsplit1_last ALLOWED_EXTENSIONS_def)
  with d show "\<exists>pre ext. fname = pre @ CHR ''.'' # ext \<and> CHR ''.'' \<notin> set ext \<and> py_lower ext = ''zip''"
    by blast
next
  assume "\<exists>pre ext. fname = pre @ CHR ''.'' # ext \<and> CHR ''.'' \<notin> set ext \<and> py_lower ext = ''zip''"
  then show "allowed_file fname"
    by (auto simp: allowed_file_def rsplit1_last ALLOWED_EXTENSIONS_def)
qed

lemma py_lower_no_dot: "CHR ''.'' \<notin> set (py_lower s) \<Longrightarrow> CHR ''.'' \<notin> set s"
proof
  assume n: "CHR ''.'' \<notin> set (py_lower s)" and i: "CHR ''.'' \<in> set s"
  from i have "py_lower_char CHR ''.'' \<in> set (py_lower s)"
    unfolding py_lower_def by simp
  moreover have "py_lower_char CHR ''.'' = CHR ''.''" by (simp add: py_lower_char_dot)
  ultimately show False using n by simp
qed

lemma allowed_file_has_zip_extension: "allowed_file fname \<longleftrightarrow> has_zip_extension fname"
proof
  assume "allowed_file fname"
  then obtain pre ext where d: "fname = pre @ CHR ''.'' # ext" "py_lower ext = ''zip''"
    by (auto simp: allowed_file_iff)
  then have "length (py_lower ext) = 3" by simp
  then have "length ext = 3" by (simp add: py_lower_def)
  with d show "has_zip_extension fname"
    by (simp add: has_zip_extension_def py_lower_def py_lower_char_dot)
next
  assume h: "has_zip_extension fname"
  define t where "t = drop (length fname - 4) fname"
  have lt: "py_lower t = ''.zip''" using h by (simp add: has_zip_extension_def t_def)
  then have "length (py_lower t) = 4" by simp
  then have "length t = 4" by (simp add: py_lower_def)
  then obtain a ext where t: "t = a # ext" "length ext = 3" by (cases t) auto
  with lt have a: "a = CHR ''.''" and e: "py_lower ext = ''zip''"
    by (auto simp: py_lower_def py_lower_char_dot)
  from e have "CHR ''.'' \<notin> set (py_lower ext)" by simp
  then have nd: "CHR ''.'' \<notin> set ext" by (rule py_lower_no_dot)
  have "fname = take (length fname - 4) fname @ t" by (simp add: t_def)
  with t a have "fname = take (length fname - 4) fname @ CHR ''.'' # ext" by simp
  with nd e show "allowed_file fname" unfolding allowed_file_iff by blast
qed

lemma concat_singletons: "concat (map (\<lambda>x. [f x]) xs) = map f xs"
  by (induction xs) auto

text \<open>On a text of ASCII characters the table is never asked.\<close>

lemma str_lower_ascii:
  assumes "\<forall>c \<in> set s. (of_char c :: nat) < 128"
  shows "str_lower tbl s = py_lower s"
proof -
  have e: "map (\<lambda>i. if (of_char (s ! i) :: nat) < 128 then [py_lower_char (s ! i)] else tbl s i)
            [0..<length s]
        = map (\<lambda>i. [py_lower_char (s ! i)]) [0..<length s]"
    using assms by (intro map_cong) auto
  have "str_lower tbl s = concat (map (\<lambda>i. [py_lower_char (s ! i)]) [0..<length s])"
    unfolding str_lower_def by (simp only: e)
  also have "\<dots> = map (\<lambda>i. py_lower_char (s ! i)) [0..<length s]"
    by (rule concat_singletons)
  also have "\<dots> = map py_lower_char (map (\<lambda>i. s ! i) [0..<length s])"
    by simp
  also have "map (\<lambda>i. s ! i) [0..<length s] = s"
    by (rule map_nth)
  finally show ?thesis by (simp add: py_lower_def)
qed

lemma py_lower_char_high:
  "128 \<le> (of_char c :: nat) \<Longrightarrow> py_lower_char c = c"
  by (simp add: py_lower_char_def Let_def)

lemma py_lower_keeps_high:
  assumes "\<exists>c \<in> set s. 128 \<le> (of_char c :: nat)"
  shows "\<exists>c \<in> set (py_lower s). 128 \<le> (of_char c :: nat)"
proof -
  from assms obtain c where c: "c \<in> set s" "128 \<le> (of_char c :: nat)" by blast
  then have "py_lower_char c \<in> set (py_lower s)" unfolding py_lower_def by simp
  with c show ?thesis by (auto simp: py_lower_char_high)
qed

text \<open>
  With any table under which no text with a code point outside ASCII lowers to
  \<^verbatim>\<open>zip\<close>, as is the case for the table of Unicode, the test of line 23 with
  \<^verbatim>\<open>str.lower\<close> accepts the filenames that \<open>allowed_file\<close> accepts.
\<close>

lemma allowed_file_by_table:
  assumes "\<And>s. \<exists>c \<in> set s. 128 \<le> (of_char c :: nat) \<Longrightarrow> str_lower tbl s \<noteq> ''zip''"
  shows "(CHR ''.'' \<in> set fname \<and>
          str_lower tbl (rsplit1 CHR ''.'' fname ! 1) \<in> ALLOWED_EXTENSIONS)
         \<longleftrightarrow> allowed_file fname"
proof (cases "\<exists>c \<in> set (rsplit1 CHR ''.'' fname ! 1). 128 \<le> (of_char c :: nat)")
  case True
  then have "str_lower tbl (rsplit1 CHR ''.'' fname ! 1) \<noteq> ''zip''" by (rule assms)
  moreover from True have "\<exists>c \<in> set (py_lower (rsplit1 CHR ''.'' fname ! 1)). 128 \<le> (of_char c :: nat)"
    by (rule py_lower_keeps_high)
  then have "py_lower (rsplit1 CHR ''.'' fname ! 1) \<noteq> ''zip''" by auto
  ultimately show ?thesis by (simp add: allowed_file_def ALLOWED_EXTENSIONS_def)
next
  case False
  then have "\<forall>c \<in> set (rsplit1 CHR ''.'' fname ! 1). (of_char c :: nat) < 128" by auto
  then have "str_lower tbl (rsplit1 CHR ''.'' fname ! 1) = py_lower (rsplit1 CHR ''.'' fname ! 1)"
    by (rule str_lower_ascii)
  then show ?thesis by (simp add: allowed_file_def)
qed

section \<open>The paths through the handler\<close>

text \<open>
  One lemma for each way through \<^verbatim>\<open>upload_file\<close> and through its \<^verbatim>\<open>try\<close> block:
  the conditions that select the way, and what the handler returns on it.
\<close>

lemma allowed_file_nonempty: "allowed_file fname \<Longrightarrow> fname \<noteq> []"
  by (auto simp: allowed_file_def)

lemma upload_no_field:
  "map_of (files req) ''file'' = None \<Longrightarrow>
   upload_file os req w = (Inr (jsonify [(''error'', ''No file part in the request'')] 400), w, [])"
  by (simp add: upload_file_def)

lemma upload_empty_filename:
  "map_of (files req) ''file'' = Some file \<Longrightarrow> filename file = [] \<Longrightarrow>
   upload_file os req w = (Inr (jsonify [(''error'', ''No selected file'')] 400), w, [])"
  by (simp add: upload_file_def)

lemma upload_bad_extension:
  "map_of (files req) ''file'' = Some file \<Longrightarrow> filename file \<noteq> [] \<Longrightarrow>
   \<not> allowed_file (filename file) \<Longrightarrow>
   upload_file os req w =
     (Inr (jsonify [(''error'', ''Invalid file format. Only .zip files are allowed.'')] 400), w, [])"
  by (simp add: upload_file_def)

lemma upload_save_raises:
  assumes "map_of (files req) ''file'' = Some file"
    and "allowed_file (filename file)"
    and "save os (content file) (join UPLOAD_FOLDER (filename file)) w = Inl e"
  shows "upload_file os req w =
           (Inl e, w, [Save (join UPLOAD_FOLDER (filename file)) (content file)])"
  using assms by (simp add: upload_file_def deploy_extracted_def allowed_file_nonempty Let_def)

lemma upload_unpack_raises:
  assumes "map_of (files req) ''file'' = Some file"
    and "allowed_file (filename file)"
    and "save os (content file) (join UPLOAD_FOLDER (filename file)) w = Inr w1"
    and "unpack_archive os (join UPLOAD_FOLDER (filename file))
           (join BUILD_FOLDER (fst (splitext (filename file)))) w1 = (Some e, w2)"
  shows "upload_file os req w =
           (Inl e, w2,
            [Save (join UPLOAD_FOLDER (filename file)) (content file),
             Unpack (join UPLOAD_FOLDER (filename file))
               (join BUILD_FOLDER (fst (splitext (filename file))))])"
  using assms by (simp add: upload_file_def deploy_extracted_def allowed_file_nonempty Let_def)

lemma upload_no_manifest:
  assumes "map_of (files req) ''file'' = Some file"
    and "allowed_file (filename file)"
    and "save os (content file) (join UPLOAD_FOLDER (filename file)) w = Inr w1"
    and "unpack_archive os (join UPLOAD_FOLDER (filename file))
           (join BUILD_FOLDER (fst (splitext (filename file)))) w1 = (None, w2)"
    and "find_file os w2 (join BUILD_FOLDER (fst (splitext (filename file)))) ''package.json'' = None"
  shows "upload_file os req w =
           (Inr (jsonify [(''error'', ''package.json not found in the extracted ZIP.'')] 400), w2,
            [Save (join UPLOAD_FOLDER (filename file)) (content file),
             Unpack (join UPLOAD_FOLDER (filename file))
               (join BUILD_FOLDER (fst (splitext (filename file))))])"
  using assms by (simp add: upload_file_def deploy_extracted_def allowed_file_nonempty Let_def)

lemma upload_docker:
  assumes "map_of (files req) ''file'' = Some file"
    and "allowed_file (filename file)"
    and "save os (content file) (join UPLOAD_FOLDER (filename file)) w = Inr w1"
    and "unpack_archive os (join UPLOAD_FOLDER (filename file))
           (join BUILD_FOLDER (fst (splitext (filename file)))) w1 = (None, w2)"
    and "find_file os w2 (join BUILD_FOLDER (fst (splitext (filename file)))) ''package.json''
           = Some package_json_path"
    and "ensure_dockerfile os package_json_path w2 = (w3, written)"
    and "docker_stage os (image_name_of os (filename file))
           (container_name_of os (filename file))
           (dirname package_json_path) w3 = (result, w4, invoked)"
  shows "upload_file os req w =
           (result, w4,
            [Save (join UPLOAD_FOLDER (filename file)) (content file),
             Unpack (join UPLOAD_FOLDER (filename file))
               (join BUILD_FOLDER (fst (splitext (filename file))))] @ written @ invoked)"
  using assms by (simp add: upload_file_def deploy_extracted_def allowed_file_nonempty Let_def)

lemma docker_build_fails:
  assumes "subprocess_run os (build_cmd image_name context) w = (build_process, w1)"
    and "returncode build_process \<noteq> 0"
  shows "docker_stage os image_name container_name context w =
           (on_called_process_error (stderr build_process), w1,
            [Run (build_cmd image_name context)])"
  using assms by (simp add: docker_stage_def Let_def)

lemma docker_build_output_undecodable:
  assumes "subprocess_run os (build_cmd image_name context) w = (build_process, w1)"
    and "returncode build_process = 0"
    and "decode (stdout build_process) = Inl e \<or>
         (\<exists>t. decode (stdout build_process) = Inr t) \<and> decode (stderr build_process) = Inl e"
  shows "docker_stage os image_name container_name context w =
           (Inl e, w1, [Run (build_cmd image_name context)])"
  using assms by (auto simp: docker_stage_def Let_def)

lemma docker_run_fails:
  assumes "subprocess_run os (build_cmd image_name context) w = (build_process, w1)"
    and "returncode build_process = 0"
    and "decode (stdout build_process) = Inr out" and "decode (stderr build_process) = Inr err"
    and "subprocess_run os (rm_cmd container_name) w1 = (rm_process, w2)"
    and "subprocess_run os (run_cmd container_name image_name) w2 = (run_process, w3)"
    and "returncode run_process \<noteq> 0"
  shows "docker_stage os image_name container_name context w =
           (on_called_process_error (stderr run_process), w3,
            [Run (build_cmd image_name context), Run (rm_cmd container_name),
             Run (run_cmd container_name image_name)])"
  using assms by (simp add: docker_stage_def Let_def)

lemma docker_succeeds:
  assumes "subprocess_run os (build_cmd image_name context) w = (build_process, w1)"
    and "returncode build_process = 0"
    and "decode (stdout build_process) = Inr out" and "decode (stderr build_process) = Inr err"
    and "subprocess_run os (rm_cmd container_name) w1 = (rm_process, w2)"
    and "subprocess_run os (run_cmd container_name image_name) w2 = (run_process, w3)"
    and "returncode run_process = 0"
    and "decode (stdout run_process) = Inr out'" and "decode (stderr run_process) = Inr err'"
  shows "docker_stage os image_name container_name context w =
           (Inr (jsonify
              [(''message'', ''File uploaded and Docker container started successfully''),
               (''docker_image'', image_name),
               (''docker_container'', container_name)] 200), w3,
            [Run (build_cmd image_name context), Run (rm_cmd container_name),
             Run (run_cmd container_name image_name)])"
  using assms by (simp add: docker_stage_def Let_def)

section \<open>Searching the extracted tree\<close>

lemma find_file_loop_append:
  "find_file_loop (xs @ ys) name =
     (case find_file_loop xs name of None \<Rightarrow> find_file_loop ys name | Some p \<Rightarrow> Some p)"
  by (induction xs name rule: find_file_loop.induct) auto

lemma contains_file_unfold:
  "contains_file name es \<longleftrightarrow>
     name \<in> set (nondirs es) \<or> (\<exists>n sub. Dir n sub \<in> set es \<and> contains_file name sub)"
  by (induction name es rule: contains_file.induct) auto

declare walk_dir.simps [simp del]

lemma find_file_loop_walk:
  "(find_file_loop (walk_dir root es) name = None) = (\<not> contains_file name es)"
  "(find_file_loop (walk_subdirs root es) name = None)
     = (\<not> (\<exists>n sub. Dir n sub \<in> set es \<and> contains_file name sub))"
proof (induction root es and root es rule: walk_dir_walk_subdirs.induct)
  case (1 root entries)
  then show ?case by (subst contains_file_unfold) (simp add: walk_dir.simps)
next
  case (2 root)
  then show ?case by simp
next
  case (3 root n es)
  then show ?case by simp
next
  case (4 root n sub es)
  then show ?case by (auto simp: find_file_loop_append split: option.splits)
qed

lemma find_file_None:
  "find_file os w root_path name = None \<longleftrightarrow>
     (\<forall>entries. dir_tree os root_path w = Some entries \<longrightarrow> \<not> contains_file name entries)"
  by (simp add: find_file_def os_walk_def find_file_loop_walk split: option.splits)

section \<open>What a run records\<close>

lemma ensure_dockerfile_events:
  "snd (ensure_dockerfile os p w) = [] \<or>
   snd (ensure_dockerfile os p w) = [Write (join (dirname p) ''Dockerfile'') DEFAULT_DOCKERFILE]"
  by (simp add: ensure_dockerfile_def Let_def)

lemma docker_stage_events:
  "snd (snd (docker_stage os image_name container_name context w))
     = [Run (build_cmd image_name context)] \<or>
   snd (snd (docker_stage os image_name container_name context w))
     = [Run (build_cmd image_name context), Run (rm_cmd container_name),
        Run (run_cmd container_name image_name)]"
  by (simp add: docker_stage_def Let_def case_prod_beta split: sum.splits)

text \<open>The shapes the record of an accepted upload can have.\<close>

lemma upload_file_events:
  assumes "map_of (files req) ''file'' = Some file"
    and "allowed_file (filename file)"
  shows "\<exists>rest written invoked.
           snd (snd (upload_file os req w)) =
             Save (join UPLOAD_FOLDER (filename file)) (content file) # rest
           \<and> (rest = [] \<or>
                rest = Unpack (join UPLOAD_FOLDER (filename file))
                         (join BUILD_FOLDER (fst (splitext (filename file))))
                       # written @ invoked)
           \<and> (written = [] \<or> (\<exists>p. written = [Write p DEFAULT_DOCKERFILE]))
           \<and> (invoked = [] \<or>
                (\<exists>ctx. invoked = [Run (build_cmd (image_name_of os (filename file)) ctx)] \<or>
                   invoked = [Run (build_cmd (image_name_of os (filename file)) ctx),
                              Run (rm_cmd (container_name_of os (filename file))),
                              Run (run_cmd (container_name_of os (filename file))
                                     (image_name_of os (filename file)))]))"
proof -
  let ?fp = "join UPLOAD_FOLDER (filename file)"
  let ?ep = "join BUILD_FOLDER (fst (splitext (filename file)))"
  show ?thesis
  proof (cases "save os (content file) ?fp w")
    case (Inl e)
    from upload_save_raises [OF assms Inl] show ?thesis by auto
  next
    case (Inr w1)
    obtain raised w2 where u: "unpack_archive os ?fp ?ep w1 = (raised, w2)"
      by (cases "unpack_archive os ?fp ?ep w1")
    show ?thesis
    proof (cases raised)
      case (Some e)
      with u upload_unpack_raises [OF assms Inr, of e w2] show ?thesis by auto
    next
      case None
      note un = u [unfolded None]
      show ?thesis
      proof (cases "find_file os w2 ?ep ''package.json''")
        case None
        with upload_no_manifest [OF assms Inr un] show ?thesis by auto
      next
        case (Some p)
        obtain w3 written where e: "ensure_dockerfile os p w2 = (w3, written)"
          by (cases "ensure_dockerfile os p w2")
        obtain result w4 invoked where
          d: "docker_stage os (image_name_of os (filename file))
                (container_name_of os (filename file)) (dirname p) w3 = (result, w4, invoked)"
          by (cases "docker_stage os (image_name_of os (filename file))
                (container_name_of os (filename file)) (dirname p) w3")
        have wr: "written = [] \<or> (\<exists>q. written = [Write q DEFAULT_DOCKERFILE])"
          using ensure_dockerfile_events [of os p w2] e by auto
        have iv: "invoked = [Run (build_cmd (image_name_of os (filename file)) (dirname p))] \<or>
                  invoked = [Run (build_cmd (image_name_of os (filename file)) (dirname p)),
                             Run (rm_cmd (container_name_of os (filename file))),
                             Run (run_cmd (container_name_of os (filename file))
                                    (image_name_of os (filename file)))]"
          using docker_stage_events [of os "image_name_of os (filename file)"
                  "container_name_of os (filename file)" "dirname p" w3] d by simp
        from upload_docker [OF assms Inr un Some e d] wr iv show ?thesis by auto
      qed
    qed
  qed
qed

lemma upload_file_no_events:
  assumes "map_of (files req) ''file'' = None \<or>
           (\<exists>file. map_of (files req) ''file'' = Some file \<and> \<not> allowed_file (filename file))"
  shows "snd (snd (upload_file os req w)) = []"
  using assms by (auto simp: upload_file_def)

lemma build_cmd_not_rm_run:
  "build_cmd i c \<noteq> rm_cmd n" "build_cmd i c \<noteq> run_cmd n j" "rm_cmd n \<noteq> run_cmd m j"
  "rm_cmd n \<noteq> build_cmd i c" "run_cmd n j \<noteq> build_cmd i c" "run_cmd m j \<noteq> rm_cmd n"
  by (simp_all add: build_cmd_def rm_cmd_def run_cmd_def)

lemma rm_cmd_inject: "rm_cmd a = rm_cmd b \<longleftrightarrow> a = b"
  by (simp add: rm_cmd_def)

lemma docker_stage_success_body:
  assumes "fst (docker_stage os image_name container_name ctx w) = Inr r"
    and "status r = 200"
  shows "body r = [(''message'', ''File uploaded and Docker container started successfully''),
                   (''docker_image'', image_name), (''docker_container'', container_name)]"
  using assms
  by (auto simp: docker_stage_def Let_def case_prod_beta on_called_process_error_def jsonify_def
      split: sum.splits if_splits)

lemma upload_file_success_body:
  assumes "map_of (files req) ''file'' = Some file"
    and "fst (upload_file os req w) = Inr r"
    and "status r = 200"
  shows "body r = [(''message'', ''File uploaded and Docker container started successfully''),
                   (''docker_image'', image_name_of os (filename file)),
                   (''docker_container'', container_name_of os (filename file))]"
  using assms docker_stage_success_body
  by (auto simp: upload_file_def deploy_extracted_def Let_def case_prod_beta jsonify_def
      split: option.splits if_splits sum.splits)

text \<open>
  The \<^verbatim>\<open>try\<close> block, told by what its three commands return: the build, and after a
  build that exits with 0 and whose output decodes, the removal and the run.
\<close>

lemma docker_stage_run:
  assumes "subprocess_run os (build_cmd image_name ctx) w = (build_process, w1)"
    and "subprocess_run os (rm_cmd container_name) w1 = (rm_process, w2)"
    and "subprocess_run os (run_cmd container_name image_name) w2 = (run_process, w3)"
  shows "docker_stage os image_name container_name ctx w =
           (if returncode build_process \<noteq> 0
            then (on_called_process_error (stderr build_process), w1,
                  [Run (build_cmd image_name ctx)])
            else if decode (stdout build_process) \<noteq> Inr (stdout build_process)
                    \<or> decode (stderr build_process) \<noteq> Inr (stderr build_process)
            then (Inl UnicodeDecodeError, w1, [Run (build_cmd image_name ctx)])
            else
              (if returncode run_process \<noteq> 0 then on_called_process_error (stderr run_process)
               else if decode (stdout run_process) \<noteq> Inr (stdout run_process)
                       \<or> decode (stderr run_process) \<noteq> Inr (stderr run_process)
               then Inl UnicodeDecodeError
               else Inr (jsonify
                      [(''message'', ''File uploaded and Docker container started successfully''),
                       (''docker_image'', image_name),
                       (''docker_container'', container_name)] 200),
               w3,
               [Run (build_cmd image_name ctx), Run (rm_cmd container_name),
                Run (run_cmd container_name image_name)]))"
  using assms by (auto simp: docker_stage_def Let_def decode_def split: sum.splits)

section \<open>Rejected requests\<close>

text \<open>
  C2. A request without the field \<^verbatim>\<open>file\<close>, with an empty filename, or with a filename
  that does not end in \<^verbatim>\<open>.zip\<close> (in any case of the letters) is answered with status
  400 and an error object, the world is left as it was and nothing was asked of the
  filesystem or of an external process.
\<close>

theorem invalid_upload_rejected:
  assumes "map_of (files req) ''file'' = None \<or>
           (\<exists>file. map_of (files req) ''file'' = Some file \<and>
              (filename file = [] \<or> \<not> has_zip_extension (filename file)))"
  shows "\<exists>msg. upload_file os req w = (Inr (jsonify [(''error'', msg)] 400), w, [])"
proof (cases "map_of (files req) ''file''")
  case None
  then show ?thesis using upload_no_field [of req os w] by blast
next
  case (Some upl)
  with assms have bad: "filename upl = [] \<or> \<not> has_zip_extension (filename upl)"
    by simp
  show ?thesis
  proof (cases "filename upl = []")
    case True
    with Some show ?thesis using upload_empty_filename [of req upl os w] by blast
  next
    case False
    with bad have "\<not> allowed_file (filename upl)"
      by (simp add: allowed_file_has_zip_extension)
    with Some False show ?thesis using upload_bad_extension [of req upl os w] by blast
  qed
qed

theorem invalid_upload_rejected_witness:
  "\<not> has_zip_extension ''bad.txt'' \<and>
   (\<exists>msg. upload_file (sim_os build_ok) (upload ''bad.txt'' ''demo'') sim_empty
            = (Inr (jsonify [(''error'', msg)] 400), sim_empty, []))"
proof -
  have n: "\<not> has_zip_extension ''bad.txt''"
    by code_simp
  then have "\<exists>file. map_of (files (upload ''bad.txt'' ''demo'')) ''file'' = Some file \<and>
           (filename file = [] \<or> \<not> has_zip_extension (filename file))"
    by (simp add: upload_def)
  then have "map_of (files (upload ''bad.txt'' ''demo'')) ''file'' = None \<or>
        (\<exists>file. map_of (files (upload ''bad.txt'' ''demo'')) ''file'' = Some file \<and>
           (filename file = [] \<or> \<not> has_zip_extension (filename file)))"
    by (rule disjI2)
  from invalid_upload_rejected [OF this, of "sim_os build_ok" sim_empty] n
  show ?thesis by simp
qed

text \<open>
  C4 (as the code has it). When the upload was saved, the archive was extracted and the
  directory at the extraction path then holds no file named \<^verbatim>\<open>package.json\<close> at any
  depth, the handler answers with status 400 and the message
  \<^verbatim>\<open>package.json not found in the extracted ZIP.\<close>; it has saved and unpacked, and has
  run no external command. The search is over the directory as extraction left it: what
  the archive brought together with what was there before.
\<close>

theorem missing_manifest_rejected:
  assumes "map_of (files req) ''file'' = Some file"
    and "has_zip_extension (filename file)"
    and "save os (content file) (join UPLOAD_FOLDER (filename file)) w = Inr w1"
    and "unpack_archive os (join UPLOAD_FOLDER (filename file))
           (join BUILD_FOLDER (fst (splitext (filename file)))) w1 = (None, w2)"
    and "\<forall>entries. dir_tree os (join BUILD_FOLDER (fst (splitext (filename file)))) w2 = Some entries
           \<longrightarrow> \<not> contains_file ''package.json'' entries"
  shows "upload_file os req w =
           (Inr (jsonify [(''error'', ''package.json not found in the extracted ZIP.'')] 400), w2,
            [Save (join UPLOAD_FOLDER (filename file)) (content file),
             Unpack (join UPLOAD_FOLDER (filename file))
               (join BUILD_FOLDER (fst (splitext (filename file))))])
         \<and> (\<forall>argv. Run argv \<notin> set (snd (snd (upload_file os req w))))"
proof -
  have a: "allowed_file (filename file)"
    using assms(2) by (simp add: allowed_file_has_zip_extension)
  have f: "find_file os w2 (join BUILD_FOLDER (fst (splitext (filename file)))) ''package.json'' = None"
    using assms(5) by (simp add: find_file_None)
  show ?thesis
    using upload_no_manifest [OF assms(1) a assms(3) assms(4) f] by simp
qed

theorem missing_manifest_rejected_witness:
  "fst (upload_file (sim_os build_ok) (upload ''noapp.zip'' ''noapp'') sim_empty)
     = Inr (jsonify [(''error'', ''package.json not found in the extracted ZIP.'')] 400)
   \<and> snd (snd (upload_file (sim_os build_ok) (upload ''noapp.zip'' ''noapp'') sim_empty))
     = [Save ''./uploads/noapp.zip'' ''noapp'', Unpack ''./uploads/noapp.zip'' ''./builds/noapp'']"
proof -
  let ?f = "\<lparr>filename = ''noapp.zip'', content = ''noapp''\<rparr>"
  let ?w1 = "\<lparr>tree_root = [Dir ''uploads'' [File ''noapp.zip''], Dir ''builds'' []],
              blobs = [([''uploads'', ''noapp.zip''], ''noapp'')], running = []\<rparr>"
  let ?w2 = "\<lparr>tree_root = [Dir ''uploads'' [File ''noapp.zip''],
                           Dir ''builds'' [Dir ''noapp'' [File ''README.md'',
                                                        Dir ''src'' [File ''main.py'']]]],
              blobs = [([''uploads'', ''noapp.zip''], ''noapp'')], running = []\<rparr>"
  have h1: "map_of (files (upload ''noapp.zip'' ''noapp'')) ''file'' = Some ?f"
    by (simp add: upload_def)
  have h2: "has_zip_extension (filename ?f)"
    by code_simp
  have h3: "save (sim_os build_ok) (content ?f) (join UPLOAD_FOLDER (filename ?f)) sim_empty
            = Inr ?w1"
    by code_simp
  have h4: "unpack_archive (sim_os build_ok) (join UPLOAD_FOLDER (filename ?f))
              (join BUILD_FOLDER (fst (splitext (filename ?f)))) ?w1 = (None, ?w2)"
    by code_simp
  have p1: "join UPLOAD_FOLDER (filename ?f) = ''./uploads/noapp.zip''" by code_simp
  have p2: "join BUILD_FOLDER (fst (splitext (filename ?f))) = ''./builds/noapp''" by code_simp
  have t: "dir_tree (sim_os build_ok) ''./builds/noapp'' ?w2
           = Some [File ''README.md'', Dir ''src'' [File ''main.py'']]"
    by code_simp
  have h5: "\<forall>entries. dir_tree (sim_os build_ok) (join BUILD_FOLDER (fst (splitext (filename ?f)))) ?w2
               = Some entries \<longrightarrow> \<not> contains_file ''package.json'' entries"
    unfolding p2 t by simp
  from missing_manifest_rejected [OF h1 h2 h3 h4 h5] show ?thesis
    unfolding p1 p2 by simp
qed

text \<open>
  C4 as stated speaks of the tree of the archive. \<^verbatim>\<open>shutil.unpack_archive\<close> adds to
  the directory at the extraction path and removes nothing from it. After a first upload
  \<^verbatim>\<open>noapp.zip\<close> that held \<^verbatim>\<open>sub/pkg/package.json\<close>, a second upload of the same
  name whose archive holds no \<^verbatim>\<open>package.json\<close> at any depth finds the manifest of the
  first: the image is built, the container replaced and started, and the answer has
  status 200.
\<close>

theorem stale_manifest_is_deployed:
  "sim_unzip ''noapp'' = Inr [File ''README.md'', Dir ''src'' [File ''main.py'']]
   \<and> \<not> contains_file ''package.json'' [File ''README.md'', Dir ''src'' [File ''main.py'']]
   \<and> fst (upload_file (sim_os build_ok) (upload ''noapp.zip'' ''noapp'') sim_stale)
       = Inr (jsonify
           [(''message'', ''File uploaded and Docker container started successfully''),
            (''docker_image'', ''noapp-image''),
            (''docker_container'', ''noapp-container'')] 200)
   \<and> snd (snd (upload_file (sim_os build_ok) (upload ''noapp.zip'' ''noapp'') sim_stale))
       = [Save ''./uploads/noapp.zip'' ''noapp'',
          Unpack ''./uploads/noapp.zip'' ''./builds/noapp'',
          Run [''docker'', ''build'', ''-t'', ''noapp-image'', ''./builds/noapp/sub/pkg''],
          Run [''docker'', ''rm'', ''-f'', ''noapp-container''],
          Run [''docker'', ''run'', ''-d'', ''--name'', ''noapp-container'', ''-p'', ''3000:3000'',
               ''noapp-image'']]"
  by code_simp

section \<open>Archives that cannot be read\<close>

text \<open>
  C3 (as the code has it). When \<^verbatim>\<open>shutil.unpack_archive\<close> raises on an accepted and
  saved upload, the run ends there: the file was saved and the extraction attempted,
  nothing is searched, written or run after it. The call stands outside the
  \<^verbatim>\<open>try\<close> block, so the exception, whichever it is, leaves \<^verbatim>\<open>upload_file\<close>: the
  handler builds no error object and sets no status of its own.
\<close>

theorem unreadable_archive_propagates:
  assumes "map_of (files req) ''file'' = Some file"
    and "has_zip_extension (filename file)"
    and "save os (content file) (join UPLOAD_FOLDER (filename file)) w = Inr w1"
    and "unpack_archive os (join UPLOAD_FOLDER (filename file))
           (join BUILD_FOLDER (fst (splitext (filename file)))) w1 = (Some e, w2)"
  shows "upload_file os req w =
           (Inl e, w2,
            [Save (join UPLOAD_FOLDER (filename file)) (content file),
             Unpack (join UPLOAD_FOLDER (filename file))
               (join BUILD_FOLDER (fst (splitext (filename file))))])"
proof -
  have a: "allowed_file (filename file)"
    using assms(2) by (simp add: allowed_file_has_zip_extension)
  show ?thesis by (rule upload_unpack_raises [OF assms(1) a assms(3) assms(4)])
qed

theorem unreadable_archive_propagates_witness:
  "upload_file (sim_os build_ok) (upload ''bad.zip'' ''damaged'') sim_empty =
     (Inl BadZipFile,
      \<lparr>tree_root = [Dir ''uploads'' [File ''bad.zip''], Dir ''builds'' []],
         blobs = [([''uploads'', ''bad.zip''], ''damaged'')], running = []\<rparr>,
      [Save ''./uploads/bad.zip'' ''damaged'', Unpack ''./uploads/bad.zip'' ''./builds/bad''])"
proof -
  let ?f = "\<lparr>filename = ''bad.zip'', content = ''damaged''\<rparr>"
  let ?w1 = "\<lparr>tree_root = [Dir ''uploads'' [File ''bad.zip''], Dir ''builds'' []],
              blobs = [([''uploads'', ''bad.zip''], ''damaged'')], running = []\<rparr>"
  have h1: "map_of (files (upload ''bad.zip'' ''damaged'')) ''file'' = Some ?f"
    by (simp add: upload_def)
  have h2: "has_zip_extension (filename ?f)"
    by code_simp
  have h3: "save (sim_os build_ok) (content ?f) (join UPLOAD_FOLDER (filename ?f)) sim_empty
            = Inr ?w1"
    by code_simp
  have h4: "unpack_archive (sim_os build_ok) (join UPLOAD_FOLDER (filename ?f))
              (join BUILD_FOLDER (fst (splitext (filename ?f)))) ?w1 = (Some BadZipFile, ?w1)"
    by code_simp
  have p1: "join UPLOAD_FOLDER (filename ?f) = ''./uploads/bad.zip''" by code_simp
  have p2: "join BUILD_FOLDER (fst (splitext (filename ?f))) = ''./builds/bad''" by code_simp
  from unreadable_archive_propagates [OF h1 h2 h3 h4] show ?thesis
    unfolding p1 p2 by simp
qed

text \<open>
  C3 as stated asks for a structured error response that counts as a client fault. For
  the accepted upload \<^verbatim>\<open>bad.zip\<close> whose bytes are no archive the outcome of the
  handler is the exception of the extraction, not a response.
\<close>

theorem unreadable_archive_counterexample:
  "has_zip_extension ''bad.zip'' \<and> sim_unzip ''garbage'' = Inl ReadError \<and>
   fst (upload_file (sim_os build_ok) (upload ''bad.zip'' ''garbage'') sim_empty) = Inl ReadError"
  by code_simp

section \<open>A build that fails\<close>

text \<open>
  C9. In a run whose build command exits with a code other than 0, the build is the last
  thing the handler asks for: the world it leaves is the one the build command returned,
  and neither \<^verbatim>\<open>docker rm\<close> nor \<^verbatim>\<open>docker run\<close> is in the record for any container,
  so a container that ran before the failed rebuild is not stopped or removed.
\<close>

theorem failed_build_runs_nothing_else:
  assumes "map_of (files req) ''file'' = Some file"
    and "has_zip_extension (filename file)"
    and "save os (content file) (join UPLOAD_FOLDER (filename file)) w = Inr w1"
    and "unpack_archive os (join UPLOAD_FOLDER (filename file))
           (join BUILD_FOLDER (fst (splitext (filename file)))) w1 = (None, w2)"
    and "find_file os w2 (join BUILD_FOLDER (fst (splitext (filename file)))) ''package.json''
           = Some package_json_path"
    and "ensure_dockerfile os package_json_path w2 = (w3, written)"
    and "subprocess_run os
           (build_cmd (image_name_of os (filename file)) (dirname package_json_path)) w3
           = (build_process, w4)"
    and "returncode build_process \<noteq> 0"
  shows "snd (upload_file os req w) =
           (w4,
            [Save (join UPLOAD_FOLDER (filename file)) (content file),
             Unpack (join UPLOAD_FOLDER (filename file))
               (join BUILD_FOLDER (fst (splitext (filename file))))]
            @ written
            @ [Run (build_cmd (image_name_of os (filename file)) (dirname package_json_path))])
         \<and> (\<forall>c i. Run (rm_cmd c) \<notin> set (snd (snd (upload_file os req w))) \<and>
                  Run (run_cmd c i) \<notin> set (snd (snd (upload_file os req w))))"
proof -
  have a: "allowed_file (filename file)"
    using assms(2) by (simp add: allowed_file_has_zip_extension)
  have wr: "written = [] \<or>
            written = [Write (join (dirname package_json_path) ''Dockerfile'') DEFAULT_DOCKERFILE]"
    using ensure_dockerfile_events [of os package_json_path w2] assms(6) by simp
  note d = docker_build_fails [OF assms(7) assms(8), of "container_name_of os (filename file)"]
  note u = upload_docker [OF assms(1) a assms(3) assms(4) assms(5) assms(6) d]
  from wr show ?thesis
    unfolding u by (auto simp: build_cmd_not_rm_run)
qed

theorem failed_build_runs_nothing_else_witness:
  "running (fst (snd (upload_file (sim_os build_failed) (upload ''demo.zip'' ''demo'') sim_deployed)))
     = [''demo-container'']
   \<and> snd (snd (upload_file (sim_os build_failed) (upload ''demo.zip'' ''demo'') sim_deployed))
     = [Save ''./uploads/demo.zip'' ''demo'', Unpack ''./uploads/demo.zip'' ''./builds/demo'',
        Write ''./builds/demo/sub/pkg/Dockerfile'' DEFAULT_DOCKERFILE,
        Run [''docker'', ''build'', ''-t'', ''demo-image'', ''./builds/demo/sub/pkg'']]"
proof -
  let ?os = "sim_os build_failed"
  let ?f = "\<lparr>filename = ''demo.zip'', content = ''demo''\<rparr>"
  let ?w1 = "\<lparr>tree_root = [Dir ''uploads'' [File ''demo.zip''], Dir ''builds'' []],
              blobs = [([''uploads'', ''demo.zip''], ''demo'')],
              running = [''demo-container'']\<rparr>"
  let ?w2 = "\<lparr>tree_root =
                [Dir ''uploads'' [File ''demo.zip''],
                 Dir ''builds''
                   [Dir ''demo''
                      [Dir ''sub'' [Dir ''pkg'' [File ''index.js'', File ''package.json'']]]]],
              blobs = [([''uploads'', ''demo.zip''], ''demo'')],
              running = [''demo-container'']\<rparr>"
  let ?w3 = "\<lparr>tree_root =
                [Dir ''uploads'' [File ''demo.zip''],
                 Dir ''builds''
                   [Dir ''demo''
                      [Dir ''sub'' [Dir ''pkg'' [File ''index.js'', File ''package.json'',
                                               File ''Dockerfile'']]]]],
              blobs = [([''builds'', ''demo'', ''sub'', ''pkg'', ''Dockerfile''],
                        DEFAULT_DOCKERFILE),
                       ([''uploads'', ''demo.zip''], ''demo'')],
              running = [''demo-container'']\<rparr>"
  let ?p = "''./builds/demo/sub/pkg/package.json''"
  have p1: "join UPLOAD_FOLDER (filename ?f) = ''./uploads/demo.zip''" by code_simp
  have p2: "join BUILD_FOLDER (fst (splitext (filename ?f))) = ''./builds/demo''" by code_simp
  have p3: "dirname ?p = ''./builds/demo/sub/pkg''" by code_simp
  have p5: "image_name_of ?os (filename ?f) = ''demo-image''" by code_simp
  have h1: "map_of (files (upload ''demo.zip'' ''demo'')) ''file'' = Some ?f"
    by (simp add: upload_def)
  have h2: "has_zip_extension (filename ?f)"
    by code_simp
  have h3: "save ?os (content ?f) (join UPLOAD_FOLDER (filename ?f)) sim_deployed = Inr ?w1"
    by code_simp
  have h4: "unpack_archive ?os (join UPLOAD_FOLDER (filename ?f))
              (join BUILD_FOLDER (fst (splitext (filename ?f)))) ?w1 = (None, ?w2)"
    by code_simp
  have h5: "find_file ?os ?w2 (join BUILD_FOLDER (fst (splitext (filename ?f)))) ''package.json''
            = Some ?p"
    by code_simp
  have h6: "ensure_dockerfile ?os ?p ?w2
            = (?w3, [Write ''./builds/demo/sub/pkg/Dockerfile'' DEFAULT_DOCKERFILE])"
    by code_simp
  have h7: "subprocess_run ?os (build_cmd (image_name_of ?os (filename ?f)) (dirname ?p)) ?w3
            = (build_failed, ?w3)"
    unfolding p3 p5 by (simp add: sim_os_def sim_run_def build_cmd_def)
  have h8: "returncode build_failed \<noteq> 0"
    by (simp add: build_failed_def)
  from failed_build_runs_nothing_else [OF h1 h2 h3 h4 h5 h6 h7 h8] show ?thesis
    unfolding p1 p2 p3 p5 by (simp add: build_cmd_def)
qed

text \<open>
  What the handler answers in such a run: the error object with the decoded standard error
  of the build and status 500 when those bytes are UTF-8, the exception of
  \<^verbatim>\<open>decode\<close> otherwise.
\<close>

lemma failed_build_response:
  assumes "map_of (files req) ''file'' = Some file"
    and "has_zip_extension (filename file)"
    and "save os (content file) (join UPLOAD_FOLDER (filename file)) w = Inr w1"
    and "unpack_archive os (join UPLOAD_FOLDER (filename file))
           (join BUILD_FOLDER (fst (splitext (filename file)))) w1 = (None, w2)"
    and "find_file os w2 (join BUILD_FOLDER (fst (splitext (filename file)))) ''package.json''
           = Some package_json_path"
    and "ensure_dockerfile os package_json_path w2 = (w3, written)"
    and "subprocess_run os
           (build_cmd (image_name_of os (filename file)) (dirname package_json_path)) w3
           = (build_process, w4)"
    and "returncode build_process \<noteq> 0"
  shows "fst (upload_file os req w) =
           (case decode (stderr build_process) of
              Inl e \<Rightarrow> Inl e
            | Inr text \<Rightarrow> Inr (jsonify [(''error'', ''Docker error: '' @ text)] 500))"
proof -
  have a: "allowed_file (filename file)"
    using assms(2) by (simp add: allowed_file_has_zip_extension)
  note d = docker_build_fails [OF assms(7) assms(8), of "container_name_of os (filename file)"]
  note u = upload_docker [OF assms(1) a assms(3) assms(4) assms(5) assms(6) d]
  show ?thesis unfolding u by (simp add: on_called_process_error_def)
qed

text \<open>
  C5. A build that exits with a code other than 0 is to be answered with status 500 and
  \<^verbatim>\<open>Docker error: \<close> followed by the captured standard error. Evaluated on a build
  that exits with 1 and whose standard error is not valid UTF-8:
  \<^verbatim>\<open>e.stderr.decode()\<close> on line 112 raises inside the \<^verbatim>\<open>except\<close> clause and the
  handler ends with \<^verbatim>\<open>UnicodeDecodeError\<close> instead of the response.
\<close>

theorem undecodable_build_error_raises:
  "returncode build_failed_latin1 = 1
   \<and> fst (upload_file (sim_os build_failed_latin1) (upload ''demo.zip'' ''demo'') sim_empty)
       = Inl UnicodeDecodeError"
  by code_simp

section \<open>The removal before the run\<close>

lemma with_rm_result_fields:
  "lower_table (with_rm_result r os) = lower_table os"
  "save (with_rm_result r os) = save os"
  "unpack_archive (with_rm_result r os) = unpack_archive os"
  "dir_tree (with_rm_result r os) = dir_tree os"
  "path_exists (with_rm_result r os) = path_exists os"
  "write_text (with_rm_result r os) = write_text os"
  by (simp_all add: with_rm_result_def)

lemma with_rm_result_run:
  "subprocess_run (with_rm_result r os) (build_cmd i c) w = subprocess_run os (build_cmd i c) w"
  "subprocess_run (with_rm_result r os) (run_cmd n i) w = subprocess_run os (run_cmd n i) w"
  "snd (subprocess_run (with_rm_result r os) (rm_cmd n) w) = snd (subprocess_run os (rm_cmd n) w)"
  by (simp_all add: with_rm_result_def build_cmd_def run_cmd_def rm_cmd_def)

lemma docker_stage_with_rm_result:
  "docker_stage (with_rm_result r os) i n c w = docker_stage os i n c w"
  by (simp add: docker_stage_def Let_def case_prod_beta with_rm_result_run split: sum.splits)

lemma find_file_with_rm_result:
  "find_file (with_rm_result r os) = find_file os"
  by (simp add: find_file_def os_walk_def with_rm_result_fields fun_eq_iff)

lemma ensure_dockerfile_with_rm_result:
  "ensure_dockerfile (with_rm_result r os) = ensure_dockerfile os"
  by (simp add: ensure_dockerfile_def Let_def with_rm_result_fields fun_eq_iff)

lemma deploy_extracted_with_rm_result:
  "deploy_extracted (with_rm_result r os) fname ep w = deploy_extracted os fname ep w"
  by (simp add: deploy_extracted_def image_name_of_def container_name_of_def Let_def
        case_prod_beta with_rm_result_fields docker_stage_with_rm_result
        find_file_with_rm_result ensure_dockerfile_with_rm_result
      split: option.splits)

lemma upload_file_with_rm_result:
  "upload_file (with_rm_result r os) req w = upload_file os req w"
  by (simp add: upload_file_def Let_def case_prod_beta with_rm_result_fields
        deploy_extracted_with_rm_result
      split: option.splits sum.splits)

text \<open>
  C8. What \<^verbatim>\<open>docker rm -f\<close> reports never reaches the outcome. With any other exit
  code and output of the removal, the handler returns the same result, leaves the same
  world and records the same requests. A run that asked for the removal of a container
  ends with the command that starts this container. And in a run whose build succeeded,
  whatever the removal returned, the handler goes on to call \<^verbatim>\<open>docker run\<close> on the
  world the removal left: the world of the handler at its end is the one this call
  returned, and the response is decided by this call alone.
\<close>

theorem removal_result_ignored:
  "upload_file (with_rm_result rm_result os) req w = upload_file os req w
   \<and> (\<forall>c. Run (rm_cmd c) \<in> set (snd (snd (upload_file os req w))) \<longrightarrow>
          (\<exists>i. last (snd (snd (upload_file os req w))) = Run (run_cmd c i)))
   \<and> (\<forall>file w1 w2 package_json_path build_process w4 rm_process w5 run_process w6.
         map_of (files req) ''file'' = Some file
         \<and> has_zip_extension (filename file)
         \<and> save os (content file) (join UPLOAD_FOLDER (filename file)) w = Inr w1
         \<and> unpack_archive os (join UPLOAD_FOLDER (filename file))
              (join BUILD_FOLDER (fst (splitext (filename file)))) w1 = (None, w2)
         \<and> find_file os w2 (join BUILD_FOLDER (fst (splitext (filename file)))) ''package.json''
              = Some package_json_path
         \<and> subprocess_run os
              (build_cmd (image_name_of os (filename file)) (dirname package_json_path))
              (fst (ensure_dockerfile os package_json_path w2)) = (build_process, w4)
         \<and> returncode build_process = 0
         \<and> decode (stdout build_process) = Inr (stdout build_process)
         \<and> decode (stderr build_process) = Inr (stderr build_process)
         \<and> subprocess_run os (rm_cmd (container_name_of os (filename file))) w4
              = (rm_process, w5)
         \<and> subprocess_run os
              (run_cmd (container_name_of os (filename file)) (image_name_of os (filename file)))
              w5 = (run_process, w6)
         \<longrightarrow>
         fst (snd (upload_file os req w)) = w6
         \<and> last (snd (snd (upload_file os req w)))
             = Run (run_cmd (container_name_of os (filename file))
                      (image_name_of os (filename file)))
         \<and> fst (upload_file os req w) =
             (if returncode run_process \<noteq> 0 then on_called_process_error (stderr run_process)
              else if decode (stdout run_process) = Inr (stdout run_process)
                      \<and> decode (stderr run_process) = Inr (stderr run_process)
              then Inr (jsonify
                     [(''message'', ''File uploaded and Docker container started successfully''),
                      (''docker_image'', image_name_of os (filename file)),
                      (''docker_container'', container_name_of os (filename file))] 200)
              else Inl UnicodeDecodeError))"
proof (intro conjI allI impI)
  show "upload_file (with_rm_result rm_result os) req w = upload_file os req w"
    by (rule upload_file_with_rm_result)
next
  fix c
  assume m: "Run (rm_cmd c) \<in> set (snd (snd (upload_file os req w)))"
  then have ne: "snd (snd (upload_file os req w)) \<noteq> []" by auto
  then obtain upl where f: "map_of (files req) ''file'' = Some upl" and a: "allowed_file (filename upl)"
    using upload_file_no_events [of req os w] by (cases "map_of (files req) ''file''") auto
  from upload_file_events [OF f a, of os w] obtain rest written invoked where
    t: "snd (snd (upload_file os req w)) =
          Save (join UPLOAD_FOLDER (filename upl)) (content upl) # rest"
    and rs: "rest = [] \<or>
             rest = Unpack (join UPLOAD_FOLDER (filename upl))
                      (join BUILD_FOLDER (fst (splitext (filename upl)))) # written @ invoked"
    and wr: "written = [] \<or> (\<exists>p. written = [Write p DEFAULT_DOCKERFILE])"
    and iv: "invoked = [] \<or>
             (\<exists>ctx. invoked = [Run (build_cmd (image_name_of os (filename upl)) ctx)] \<or>
                invoked = [Run (build_cmd (image_name_of os (filename upl)) ctx),
                           Run (rm_cmd (container_name_of os (filename upl))),
                           Run (run_cmd (container_name_of os (filename upl))
                                  (image_name_of os (filename upl)))])"
    by blast
  from m rs have r2: "rest = Unpack (join UPLOAD_FOLDER (filename upl))
                      (join BUILD_FOLDER (fst (splitext (filename upl)))) # written @ invoked"
    unfolding t by auto
  from m wr have mi: "Run (rm_cmd c) \<in> set invoked"
    unfolding t r2 by auto
  with iv obtain ctx where
    i3: "invoked = [Run (build_cmd (image_name_of os (filename upl)) ctx),
                    Run (rm_cmd (container_name_of os (filename upl))),
                    Run (run_cmd (container_name_of os (filename upl))
                           (image_name_of os (filename upl)))]"
    by (auto simp: build_cmd_not_rm_run)
  with mi have "c = container_name_of os (filename upl)"
    by (auto simp: build_cmd_not_rm_run rm_cmd_inject)
  with i3 have "last (snd (snd (upload_file os req w)))
                 = Run (run_cmd c (image_name_of os (filename upl)))"
    unfolding t r2 by simp
  then show "\<exists>i. last (snd (snd (upload_file os req w))) = Run (run_cmd c i)" by blast
next
  fix upl w1 w2 package_json_path build_process w4 rm_process w5 run_process w6
  assume h: "map_of (files req) ''file'' = Some upl
         \<and> has_zip_extension (filename upl)
         \<and> save os (content upl) (join UPLOAD_FOLDER (filename upl)) w = Inr w1
         \<and> unpack_archive os (join UPLOAD_FOLDER (filename upl))
              (join BUILD_FOLDER (fst (splitext (filename upl)))) w1 = (None, w2)
         \<and> find_file os w2 (join BUILD_FOLDER (fst (splitext (filename upl)))) ''package.json''
              = Some package_json_path
         \<and> subprocess_run os
              (build_cmd (image_name_of os (filename upl)) (dirname package_json_path))
              (fst (ensure_dockerfile os package_json_path w2)) = (build_process, w4)
         \<and> returncode build_process = 0
         \<and> decode (stdout build_process) = Inr (stdout build_process)
         \<and> decode (stderr build_process) = Inr (stderr build_process)
         \<and> subprocess_run os (rm_cmd (container_name_of os (filename upl))) w4
              = (rm_process, w5)
         \<and> subprocess_run os
              (run_cmd (container_name_of os (filename upl)) (image_name_of os (filename upl)))
              w5 = (run_process, w6)"
  then have a: "allowed_file (filename upl)"
    by (simp add: allowed_file_has_zip_extension)
  have e: "ensure_dockerfile os package_json_path w2 =
             (fst (ensure_dockerfile os package_json_path w2),
              snd (ensure_dockerfile os package_json_path w2))"
    by simp
  from h have b: "subprocess_run os
              (build_cmd (image_name_of os (filename upl)) (dirname package_json_path))
              (fst (ensure_dockerfile os package_json_path w2)) = (build_process, w4)"
    and r: "subprocess_run os (rm_cmd (container_name_of os (filename upl))) w4
              = (rm_process, w5)"
    and n: "subprocess_run os
              (run_cmd (container_name_of os (filename upl)) (image_name_of os (filename upl)))
              w5 = (run_process, w6)"
    by simp_all
  note d = docker_stage_run [OF b r n]
  from h have s: "save os (content upl) (join UPLOAD_FOLDER (filename upl)) w = Inr w1"
    and u: "unpack_archive os (join UPLOAD_FOLDER (filename upl))
              (join BUILD_FOLDER (fst (splitext (filename upl)))) w1 = (None, w2)"
    and m: "find_file os w2 (join BUILD_FOLDER (fst (splitext (filename upl)))) ''package.json''
              = Some package_json_path"
    and f: "map_of (files req) ''file'' = Some upl"
    by simp_all
  have up: "upload_file os req w =
          (fst (docker_stage os (image_name_of os (filename upl))
                 (container_name_of os (filename upl)) (dirname package_json_path)
                 (fst (ensure_dockerfile os package_json_path w2))),
           fst (snd (docker_stage os (image_name_of os (filename upl))
                 (container_name_of os (filename upl)) (dirname package_json_path)
                 (fst (ensure_dockerfile os package_json_path w2)))),
           [Save (join UPLOAD_FOLDER (filename upl)) (content upl),
            Unpack (join UPLOAD_FOLDER (filename upl))
              (join BUILD_FOLDER (fst (splitext (filename upl))))]
           @ snd (ensure_dockerfile os package_json_path w2)
           @ snd (snd (docker_stage os (image_name_of os (filename upl))
                 (container_name_of os (filename upl)) (dirname package_json_path)
                 (fst (ensure_dockerfile os package_json_path w2)))))"
    by (rule upload_docker [OF f a s u m e]) simp
  from h show "fst (snd (upload_file os req w)) = w6"
    unfolding up d by simp
  from h show "last (snd (snd (upload_file os req w)))
             = Run (run_cmd (container_name_of os (filename upl))
                      (image_name_of os (filename upl)))"
    unfolding up d by simp
  from h show "fst (upload_file os req w) =
             (if returncode run_process \<noteq> 0 then on_called_process_error (stderr run_process)
              else if decode (stdout run_process) = Inr (stdout run_process)
                      \<and> decode (stderr run_process) = Inr (stderr run_process)
              then Inr (jsonify
                     [(''message'', ''File uploaded and Docker container started successfully''),
                      (''docker_image'', image_name_of os (filename upl)),
                      (''docker_container'', container_name_of os (filename upl))] 200)
              else Inl UnicodeDecodeError)"
    unfolding up d by auto
qed

theorem removal_result_ignored_witness:
  "returncode (fst (subprocess_run (sim_os build_ok) (rm_cmd ''demo-container'') sim_extracted)) = 1
   \<and> fst (upload_file (sim_os build_ok) (upload ''demo.zip'' ''demo'') sim_empty)
       = Inr (jsonify
           [(''message'', ''File uploaded and Docker container started successfully''),
            (''docker_image'', ''demo-image''),
            (''docker_container'', ''demo-container'')] 200)
   \<and> running (fst (snd (upload_file (sim_os build_ok) (upload ''demo.zip'' ''demo'') sim_empty)))
       = [''demo-container'']
   \<and> last (snd (snd (upload_file (sim_os build_ok) (upload ''demo.zip'' ''demo'') sim_empty)))
       = Run [''docker'', ''run'', ''-d'', ''--name'', ''demo-container'', ''-p'', ''3000:3000'',
              ''demo-image'']"
proof -
  let ?os = "sim_os build_ok"
  let ?f = "\<lparr>filename = ''demo.zip'', content = ''demo''\<rparr>"
  let ?w1 = "\<lparr>tree_root = [Dir ''uploads'' [File ''demo.zip''], Dir ''builds'' []],
              blobs = [([''uploads'', ''demo.zip''], ''demo'')], running = []\<rparr>"
  let ?w3 = "\<lparr>tree_root =
                [Dir ''uploads'' [File ''demo.zip''],
                 Dir ''builds''
                   [Dir ''demo''
                      [Dir ''sub'' [Dir ''pkg'' [File ''index.js'', File ''package.json'',
                                               File ''Dockerfile'']]]]],
              blobs = [([''builds'', ''demo'', ''sub'', ''pkg'', ''Dockerfile''],
                        DEFAULT_DOCKERFILE),
                       ([''uploads'', ''demo.zip''], ''demo'')],
              running = []\<rparr>"
  let ?w6 = "?w3\<lparr>running := [''demo-container'']\<rparr>"
  let ?p = "''./builds/demo/sub/pkg/package.json''"
  let ?rm = "\<lparr>returncode = 1, stdout = [], stderr = ''No such container''\<rparr>"
  let ?run = "\<lparr>returncode = 0, stdout = ''c0ffee'', stderr = []\<rparr>"
  have p3: "dirname ?p = ''./builds/demo/sub/pkg''" by code_simp
  have p5: "image_name_of ?os (filename ?f) = ''demo-image''" by code_simp
  have p6: "container_name_of ?os (filename ?f) = ''demo-container''" by code_simp
  have h1: "map_of (files (upload ''demo.zip'' ''demo'')) ''file'' = Some ?f"
    by (simp add: upload_def)
  have h2: "has_zip_extension (filename ?f)"
    by code_simp
  have h3: "save ?os (content ?f) (join UPLOAD_FOLDER (filename ?f)) sim_empty = Inr ?w1"
    by code_simp
  have h4: "unpack_archive ?os (join UPLOAD_FOLDER (filename ?f))
              (join BUILD_FOLDER (fst (splitext (filename ?f)))) ?w1 = (None, sim_extracted)"
    by code_simp
  have h5: "find_file ?os sim_extracted (join BUILD_FOLDER (fst (splitext (filename ?f))))
              ''package.json'' = Some ?p"
    by code_simp
  have e: "fst (ensure_dockerfile ?os ?p sim_extracted) = ?w3"
    by code_simp
  have h6: "subprocess_run ?os (build_cmd (image_name_of ?os (filename ?f)) (dirname ?p))
              (fst (ensure_dockerfile ?os ?p sim_extracted)) = (build_ok, ?w3)"
    unfolding e p3 p5 by (simp add: sim_os_def sim_run_def build_cmd_def)
  have h7: "returncode build_ok = 0" by (simp add: build_ok_def)
  have h8: "decode (stdout build_ok) = Inr (stdout build_ok)" by code_simp
  have h9: "decode (stderr build_ok) = Inr (stderr build_ok)" by code_simp
  have h10: "subprocess_run ?os (rm_cmd (container_name_of ?os (filename ?f))) ?w3 = (?rm, ?w3)"
    unfolding p6 by (simp add: sim_os_def sim_run_def rm_cmd_def)
  have h11: "subprocess_run ?os
               (run_cmd (container_name_of ?os (filename ?f)) (image_name_of ?os (filename ?f)))
               ?w3 = (?run, ?w6)"
    unfolding p5 p6 by (simp add: sim_os_def sim_run_def run_cmd_def)
  have r: "returncode (fst (subprocess_run ?os (rm_cmd ''demo-container'') sim_extracted)) = 1"
    by code_simp
  have d: "decode (stdout ?run) = Inr (stdout ?run)" "decode (stderr ?run) = Inr (stderr ?run)"
    by code_simp+
  from removal_result_ignored [of "\<lambda>argv w. build_ok" ?os "upload ''demo.zip'' ''demo''" sim_empty]
  have "fst (snd (upload_file ?os (upload ''demo.zip'' ''demo'') sim_empty)) = ?w6
         \<and> last (snd (snd (upload_file ?os (upload ''demo.zip'' ''demo'') sim_empty)))
             = Run (run_cmd (container_name_of ?os (filename ?f))
                      (image_name_of ?os (filename ?f)))
         \<and> fst (upload_file ?os (upload ''demo.zip'' ''demo'') sim_empty) =
             (if returncode ?run \<noteq> 0 then on_called_process_error (stderr ?run)
              else if decode (stdout ?run) = Inr (stdout ?run)
                      \<and> decode (stderr ?run) = Inr (stderr ?run)
              then Inr (jsonify
                     [(''message'', ''File uploaded and Docker container started successfully''),
                      (''docker_image'', image_name_of ?os (filename ?f)),
                      (''docker_container'', container_name_of ?os (filename ?f))] 200)
              else Inl UnicodeDecodeError)"
    using h1 h2 h3 h4 h5 h6 h7 h8 h9 h10 h11 by blast
  then show ?thesis
    unfolding p5 p6 using r d by (simp add: run_cmd_def)
qed

section \<open>The extension that \<^verbatim>\<open>os.path.splitext\<close> strips\<close>

declare splitext_loop.simps [simp del]

lemma splitext_loop_found:
  "\<exists>j. i \<le> j \<and> j < d \<and> take 1 (drop j p) \<noteq> ''.'' \<Longrightarrow>
   splitext_loop p i d = (take d p, drop d p)"
proof (induction p i d rule: splitext_loop.induct)
  case (1 p i d)
  then obtain j where j: "i \<le> j" "j < d" "take 1 (drop j p) \<noteq> ''.''" by blast
  then have lt: "i < d" by simp
  show ?case
  proof (cases "take 1 (drop i p) \<noteq> ''.''")
    case True
    with lt show ?thesis by (subst splitext_loop.simps) simp
  next
    case False
    with j have "i \<noteq> j" by auto
    with j have "\<exists>j. i + 1 \<le> j \<and> j < d \<and> take 1 (drop j p) \<noteq> ''.''"
      by (intro exI [of _ j]) simp
    with 1 lt False have "splitext_loop p (i + 1) d = (take d p, drop d p)" by simp
    with lt False show ?thesis by (subst splitext_loop.simps) simp
  qed
qed

lemma splitext_loop_dots:
  "\<forall>j. i \<le> j \<and> j < d \<longrightarrow> take 1 (drop j p) = ''.'' \<Longrightarrow> splitext_loop p i d = (p, [])"
proof (induction p i d rule: splitext_loop.induct)
  case (1 p i d)
  show ?case
  proof (cases "i < d")
    case True
    with 1 have "splitext_loop p (i + 1) d = (p, [])" by simp
    with True 1(2) show ?thesis by (subst splitext_loop.simps) simp
  next
    case False
    then show ?thesis by (subst splitext_loop.simps) simp
  qed
qed

lemma rfind_sep_stem:
  assumes "CHR ''/'' \<notin> set ext"
  shows "rfind CHR ''/'' (stem @ CHR ''.'' # ext)
         = int (length stem) - 1 - int (length (takeWhile (\<lambda>c. c \<noteq> CHR ''/'') (rev stem)))
         \<or> (CHR ''/'' \<notin> set stem \<and> rfind CHR ''/'' (stem @ CHR ''.'' # ext) = - 1)"
proof (cases "CHR ''/'' \<in> set stem")
  case True
  then obtain a b where d: "stem = a @ CHR ''/'' # b" "CHR ''/'' \<notin> set b"
    by (meson split_list_last)
  have "takeWhile (\<lambda>c. c \<noteq> CHR ''/'') (rev b @ CHR ''/'' # rev a)
        = rev b @ takeWhile (\<lambda>c. c \<noteq> CHR ''/'') (CHR ''/'' # rev a)"
    by (rule takeWhile_append2) (use d in auto)
  then have tw: "takeWhile (\<lambda>c. c \<noteq> CHR ''/'') (rev stem) = rev b"
    using d by simp
  have "rfind CHR ''/'' (a @ CHR ''/'' # (b @ CHR ''.'' # ext)) = int (length a)"
    by (rule rfind_last) (use d assms in auto)
  then show ?thesis using d tw by simp
next
  case False
  with assms show ?thesis by (simp add: rfind_def)
qed

lemma splitext_strips_extension:
  assumes ext: "CHR ''.'' \<notin> set ext" "CHR ''/'' \<notin> set ext"
    and name: "\<exists>x \<in> set (takeWhile (\<lambda>c. c \<noteq> CHR ''/'') (rev stem)). x \<noteq> CHR ''.''"
  shows "splitext (stem @ CHR ''.'' # ext) = (stem, CHR ''.'' # ext)"
proof -
  let ?p = "stem @ CHR ''.'' # ext"
  let ?b = "takeWhile (\<lambda>c. c \<noteq> CHR ''/'') (rev stem)"
  have dot: "rfind CHR ''.'' ?p = int (length stem)"
    using ext(1) by (rule rfind_last)
  have lb: "length ?b \<le> length stem"
    by (metis length_rev length_takeWhile_le)
  define s where "s = length stem - length ?b"
  have sep: "rfind CHR ''/'' ?p = int s - 1"
  proof -
    from rfind_sep_stem [OF ext(2), of stem] show ?thesis
    proof
      assume "rfind CHR ''/'' ?p = int (length stem) - 1 - int (length ?b)"
      with lb show ?thesis by (simp add: s_def)
    next
      assume n: "CHR ''/'' \<notin> set stem \<and> rfind CHR ''/'' ?p = - 1"
      then have "?b = rev stem" by (auto simp: takeWhile_eq_all_conv)
      then have "length ?b = length stem" by (metis length_rev)
      with n show ?thesis by (simp only: s_def)
    qed
  qed
  from name obtain x where x: "x \<in> set ?b" "x \<noteq> CHR ''.''" by blast
  then obtain k where k: "k < length ?b" "?b ! k = x" by (meson in_set_conv_nth)
  have bk: "?b ! k = rev stem ! k" using k(1) by (rule takeWhile_nth)
  have kl: "k < length stem" using k(1) lb by simp
  define j where "j = length stem - 1 - k"
  have jx: "stem ! j = x"
    using bk k kl by (simp add: j_def rev_nth)
  have jb: "s \<le> j" "j < length stem"
    using k(1) kl lb by (simp_all add: j_def s_def)
  have "take 1 (drop j ?p) = [x]"
    using jb jx by (simp add: take_Suc_conv_app_nth drop_Suc hd_drop_conv_nth nth_append
                       take_Suc)
  with x jb have found: "\<exists>j. s \<le> j \<and> j < length stem \<and> take 1 (drop j ?p) \<noteq> ''.''"
    by (intro exI [of _ j]) simp
  have "splitext ?p = splitext_loop ?p s (length stem)"
    using jb by (simp add: splitext_def dot sep Let_def del: append.simps)
  also have "\<dots> = (take (length stem) ?p, drop (length stem) ?p)"
    using found by (rule splitext_loop_found)
  finally show ?thesis by simp
qed

lemma py_lower_char_below_letters:
  assumes "(of_char d :: nat) < 65"
  shows "py_lower_char c = d \<longleftrightarrow> c = d"
proof
  assume h: "py_lower_char c = d"
  show "c = d"
  proof (cases "65 \<le> (of_char c :: nat) \<and> (of_char c :: nat) \<le> 90")
    case True
    then have "char_of (of_char c + 32 :: nat) = d"
      using h by (simp add: py_lower_char_def Let_def)
    then have "(of_char (char_of (of_char c + 32 :: nat)) :: nat) = of_char d"
      by simp
    then have "(of_char c + 32 :: nat) mod 256 = of_char d" by simp
    with True assms show ?thesis by simp
  next
    case False
    with h show ?thesis by (auto simp: py_lower_char_def Let_def split: if_splits)
  qed
next
  assume "c = d"
  with assms show "py_lower_char c = d" by (simp add: py_lower_char_def Let_def)
qed

lemma py_lower_keeps_out:
  assumes "(of_char d :: nat) < 65" and "d \<notin> set (py_lower s)"
  shows "d \<notin> set s"
proof
  assume "d \<in> set s"
  then have "py_lower_char d \<in> set (py_lower s)" unfolding py_lower_def by simp
  moreover have "py_lower_char d = d" using assms(1) by (simp add: py_lower_char_below_letters)
  ultimately show False using assms(2) by simp
qed

lemma has_zip_extension_parts:
  assumes "has_zip_extension fname"
  shows "\<exists>ext. fname = take (length fname - 4) fname @ CHR ''.'' # ext \<and> py_lower ext = ''zip''
            \<and> CHR ''.'' \<notin> set ext \<and> CHR ''/'' \<notin> set ext"
proof -
  define t where "t = drop (length fname - 4) fname"
  have lt: "py_lower t = ''.zip''" using assms by (simp add: has_zip_extension_def t_def)
  then have "length (py_lower t) = 4" by simp
  then have "length t = 4" by (simp add: py_lower_def)
  then obtain a ext where t: "t = a # ext" by (cases t) auto
  with lt have a: "a = CHR ''.''" and e: "py_lower ext = ''zip''"
    by (auto simp: py_lower_def py_lower_char_dot)
  have nd: "CHR ''.'' \<notin> set ext" by (rule py_lower_keeps_out) (simp_all add: e)
  have ns: "CHR ''/'' \<notin> set ext" by (rule py_lower_keeps_out) (simp_all add: e)
  have "fname = take (length fname - 4) fname @ t" by (simp add: t_def)
  with t a e nd ns show ?thesis by auto
qed

lemma splitext_of_zip_name:
  assumes "has_zip_extension fname"
    and "\<exists>x \<in> set (takeWhile (\<lambda>c. c \<noteq> CHR ''/'') (rev (take (length fname - 4) fname))).
           x \<noteq> CHR ''.''"
  shows "fst (splitext fname) = take (length fname - 4) fname"
proof -
  from has_zip_extension_parts [OF assms(1)] obtain ext where
    e: "fname = take (length fname - 4) fname @ CHR ''.'' # ext"
       "CHR ''.'' \<notin> set ext" "CHR ''/'' \<notin> set ext"
    by blast
  have "splitext (take (length fname - 4) fname @ CHR ''.'' # ext)
          = (take (length fname - 4) fname, CHR ''.'' # ext)"
    using e(2,3) assms(2) by (rule splitext_strips_extension)
  with e(1) show ?thesis by simp
qed

text \<open>
  A name whose last component has nothing but dots before its last dot has no extension
  for \<^verbatim>\<open>splitext\<close>: it is kept whole.
\<close>

lemma splitext_dot_name:
  assumes ext: "CHR ''.'' \<notin> set ext" "CHR ''/'' \<notin> set ext"
    and dots: "\<forall>x \<in> set (takeWhile (\<lambda>c. c \<noteq> CHR ''/'') (rev stem)). x = CHR ''.''"
  shows "splitext (stem @ CHR ''.'' # ext) = (stem @ CHR ''.'' # ext, [])"
proof -
  let ?p = "stem @ CHR ''.'' # ext"
  let ?b = "takeWhile (\<lambda>c. c \<noteq> CHR ''/'') (rev stem)"
  have dot: "rfind CHR ''.'' ?p = int (length stem)"
    using ext(1) by (rule rfind_last)
  have lb: "length ?b \<le> length stem"
    by (metis length_rev length_takeWhile_le)
  define s where "s = length stem - length ?b"
  have sep: "rfind CHR ''/'' ?p = int s - 1"
  proof -
    from rfind_sep_stem [OF ext(2), of stem] show ?thesis
    proof
      assume "rfind CHR ''/'' ?p = int (length stem) - 1 - int (length ?b)"
      with lb show ?thesis by (simp add: s_def)
    next
      assume n: "CHR ''/'' \<notin> set stem \<and> rfind CHR ''/'' ?p = - 1"
      then have "?b = rev stem" by (auto simp: takeWhile_eq_all_conv)
      then have "length ?b = length stem" by (metis length_rev)
      with n show ?thesis by (simp only: s_def)
    qed
  qed
  have bt: "?b = take (length ?b) (rev stem)"
    by (rule takeWhile_eq_take)
  have all: "\<forall>j. s \<le> j \<and> j < length stem \<longrightarrow> take 1 (drop j ?p) = ''.''"
  proof (intro allI impI)
    fix j
    assume j: "s \<le> j \<and> j < length stem"
    define k where "k = length stem - 1 - j"
    from j lb have k: "k < length ?b" "j = length stem - 1 - k"
      by (auto simp: k_def s_def)
    have "?b ! k = rev stem ! k" using k(1) by (rule takeWhile_nth)
    also have "\<dots> = stem ! j" using j k lb by (simp add: rev_nth)
    finally have "stem ! j \<in> set ?b" using k(1) by (metis nth_mem)
    with dots have "stem ! j = CHR ''.''" by blast
    with j show "take 1 (drop j ?p) = ''.''"
      by (simp add: take_Suc_conv_app_nth drop_Suc hd_drop_conv_nth nth_append take_Suc)
  qed
  have sl: "s \<le> length stem" by (simp add: s_def)
  have "splitext ?p = splitext_loop ?p s (length stem)"
    using sl by (simp add: splitext_def dot sep Let_def del: append.simps)
  also have "\<dots> = (?p, [])"
    using all by (rule splitext_loop_dots)
  finally show ?thesis .
qed

lemma splitext_of_dot_name:
  assumes "has_zip_extension fname"
    and "\<forall>x \<in> set (takeWhile (\<lambda>c. c \<noteq> CHR ''/'') (rev (take (length fname - 4) fname))).
           x = CHR ''.''"
  shows "fst (splitext fname) = fname"
proof -
  from has_zip_extension_parts [OF assms(1)] obtain ext where
    e: "fname = take (length fname - 4) fname @ CHR ''.'' # ext"
       "CHR ''.'' \<notin> set ext" "CHR ''/'' \<notin> set ext"
    by blast
  have "splitext (take (length fname - 4) fname @ CHR ''.'' # ext)
          = (take (length fname - 4) fname @ CHR ''.'' # ext, [])"
    using e(2,3) assms(2) by (rule splitext_dot_name)
  with e(1) show ?thesis by simp
qed

section \<open>The default Dockerfile is written once\<close>









section \<open>Image and container names\<close>

text \<open>
  C7 (as the code has it). For an accepted upload, every command the handler runs and the
  success payload use the image name \<^verbatim>\<open>os.path.splitext(filename)[0].lower()\<close>
  followed by \<^verbatim>\<open>-image\<close> and the container name with \<^verbatim>\<open>-container\<close> in its place:
  functions of the filename alone, whatever the archive holds and wherever its manifest
  lies. The commands are the ones handed to \<^verbatim>\<open>subprocess.run\<close>: the world and the
  record of the run are those of the calls with these very arguments. The part that
  \<^verbatim>\<open>splitext\<close> keeps is the filename as the client sent it, its directory part
  included, without its last four characters (the dot and the extension) when the last
  path component has a character other than a dot before them, and the whole filename
  when it has none.
\<close>

theorem derived_names:
  assumes "map_of (files req) ''file'' = Some file"
    and "has_zip_extension (filename file)"
    and "lowered = str_lower (lower_table os) (fst (splitext (filename file)))"
    and "save os (content file) (join UPLOAD_FOLDER (filename file)) w = Inr w1"
    and "unpack_archive os (join UPLOAD_FOLDER (filename file))
           (join BUILD_FOLDER (fst (splitext (filename file)))) w1 = (None, w2)"
    and "find_file os w2 (join BUILD_FOLDER (fst (splitext (filename file)))) ''package.json''
           = Some package_json_path"
    and "ensure_dockerfile os package_json_path w2 = (w3, written)"
    and "subprocess_run os
           [''docker'', ''build'', ''-t'', lowered @ ''-image'', dirname package_json_path] w3
           = (build_process, w4)"
    and "subprocess_run os [''docker'', ''rm'', ''-f'', lowered @ ''-container''] w4
           = (rm_process, w5)"
    and "subprocess_run os
           [''docker'', ''run'', ''-d'', ''--name'', lowered @ ''-container'', ''-p'',
            ''3000:3000'', lowered @ ''-image''] w5
           = (run_process, w6)"
  shows "snd (upload_file os req w) =
           (if returncode build_process = 0
               \<and> decode (stdout build_process) = Inr (stdout build_process)
               \<and> decode (stderr build_process) = Inr (stderr build_process)
            then (w6,
                  [Save (join UPLOAD_FOLDER (filename file)) (content file),
                   Unpack (join UPLOAD_FOLDER (filename file))
                     (join BUILD_FOLDER (fst (splitext (filename file))))]
                  @ written
                  @ [Run [''docker'', ''build'', ''-t'', lowered @ ''-image'',
                          dirname package_json_path],
                     Run [''docker'', ''rm'', ''-f'', lowered @ ''-container''],
                     Run [''docker'', ''run'', ''-d'', ''--name'', lowered @ ''-container'',
                          ''-p'', ''3000:3000'', lowered @ ''-image'']])
            else (w4,
                  [Save (join UPLOAD_FOLDER (filename file)) (content file),
                   Unpack (join UPLOAD_FOLDER (filename file))
                     (join BUILD_FOLDER (fst (splitext (filename file))))]
                  @ written
                  @ [Run [''docker'', ''build'', ''-t'', lowered @ ''-image'',
                          dirname package_json_path]]))
       \<and> (\<forall>resp. fst (upload_file os req w) = Inr resp \<and> status resp = 200 \<longrightarrow>
            body resp = [(''message'', ''File uploaded and Docker container started successfully''),
                         (''docker_image'', lowered @ ''-image''),
                         (''docker_container'', lowered @ ''-container'')])
       \<and> ((\<exists>x \<in> set (takeWhile (\<lambda>c. c \<noteq> CHR ''/'')
                         (rev (take (length (filename file) - 4) (filename file)))).
              x \<noteq> CHR ''.'') \<longrightarrow>
            fst (splitext (filename file)) = take (length (filename file) - 4) (filename file))
       \<and> ((\<forall>x \<in> set (takeWhile (\<lambda>c. c \<noteq> CHR ''/'')
                         (rev (take (length (filename file) - 4) (filename file)))).
              x = CHR ''.'') \<longrightarrow>
            fst (splitext (filename file)) = filename file)"
proof (intro conjI allI impI)
  have a: "allowed_file (filename file)"
    using assms(2) by (simp add: allowed_file_has_zip_extension)
  have i: "image_name_of os (filename file) = lowered @ ''-image''"
    and c: "container_name_of os (filename file) = lowered @ ''-container''"
    using assms(3) by (simp_all add: image_name_of_def container_name_of_def)
  have b: "subprocess_run os
             (build_cmd (image_name_of os (filename file)) (dirname package_json_path)) w3
           = (build_process, w4)"
    using assms(8) by (simp add: build_cmd_def i)
  have r: "subprocess_run os (rm_cmd (container_name_of os (filename file))) w4
           = (rm_process, w5)"
    using assms(9) by (simp add: rm_cmd_def c)
  have n: "subprocess_run os
             (run_cmd (container_name_of os (filename file)) (image_name_of os (filename file)))
             w5 = (run_process, w6)"
    using assms(10) by (simp add: run_cmd_def i c)
  note d = docker_stage_run [OF b r n]
  have up: "upload_file os req w =
          (fst (docker_stage os (image_name_of os (filename file))
                 (container_name_of os (filename file)) (dirname package_json_path) w3),
           fst (snd (docker_stage os (image_name_of os (filename file))
                 (container_name_of os (filename file)) (dirname package_json_path) w3)),
           [Save (join UPLOAD_FOLDER (filename file)) (content file),
            Unpack (join UPLOAD_FOLDER (filename file))
              (join BUILD_FOLDER (fst (splitext (filename file))))]
           @ written
           @ snd (snd (docker_stage os (image_name_of os (filename file))
                 (container_name_of os (filename file)) (dirname package_json_path) w3)))"
    by (rule upload_docker [OF assms(1) a assms(4) assms(5) assms(6) assms(7)]) simp
  show "snd (upload_file os req w) =
           (if returncode build_process = 0
               \<and> decode (stdout build_process) = Inr (stdout build_process)
               \<and> decode (stderr build_process) = Inr (stderr build_process)
            then (w6,
                  [Save (join UPLOAD_FOLDER (filename file)) (content file),
                   Unpack (join UPLOAD_FOLDER (filename file))
                     (join BUILD_FOLDER (fst (splitext (filename file))))]
                  @ written
                  @ [Run [''docker'', ''build'', ''-t'', lowered @ ''-image'',
                          dirname package_json_path],
                     Run [''docker'', ''rm'', ''-f'', lowered @ ''-container''],
                     Run [''docker'', ''run'', ''-d'', ''--name'', lowered @ ''-container'',
                          ''-p'', ''3000:3000'', lowered @ ''-image'']])
            else (w4,
                  [Save (join UPLOAD_FOLDER (filename file)) (content file),
                   Unpack (join UPLOAD_FOLDER (filename file))
                     (join BUILD_FOLDER (fst (splitext (filename file))))]
                  @ written
                  @ [Run [''docker'', ''build'', ''-t'', lowered @ ''-image'',
                          dirname package_json_path]]))"
    unfolding up d by (simp add: i c build_cmd_def rm_cmd_def run_cmd_def)
  fix resp
  assume "fst (upload_file os req w) = Inr resp \<and> status resp = 200"
  then show "body resp = [(''message'', ''File uploaded and Docker container started successfully''),
                         (''docker_image'', lowered @ ''-image''),
                         (''docker_container'', lowered @ ''-container'')]"
    using upload_file_success_body [OF assms(1), of os w resp] by (simp add: i c)
next
  assume "\<exists>x \<in> set (takeWhile (\<lambda>c. c \<noteq> CHR ''/'')
                         (rev (take (length (filename file) - 4) (filename file)))).
              x \<noteq> CHR ''.''"
  with assms(2) show "fst (splitext (filename file))
                      = take (length (filename file) - 4) (filename file)"
    by (rule splitext_of_zip_name)
next
  assume "\<forall>x \<in> set (takeWhile (\<lambda>c. c \<noteq> CHR ''/'')
                         (rev (take (length (filename file) - 4) (filename file)))).
              x = CHR ''.''"
  with assms(2) show "fst (splitext (filename file)) = filename file"
    by (rule splitext_of_dot_name)
qed

theorem derived_names_witness:
  "snd (snd (upload_file (sim_os build_ok) (upload ''Demo.zip'' ''demo'') sim_empty))
     = [Save ''./uploads/Demo.zip'' ''demo'',
        Unpack ''./uploads/Demo.zip'' ''./builds/Demo'',
        Write ''./builds/Demo/sub/pkg/Dockerfile'' DEFAULT_DOCKERFILE,
        Run [''docker'', ''build'', ''-t'', ''demo-image'', ''./builds/Demo/sub/pkg''],
        Run [''docker'', ''rm'', ''-f'', ''demo-container''],
        Run [''docker'', ''run'', ''-d'', ''--name'', ''demo-container'', ''-p'', ''3000:3000'',
             ''demo-image'']]
   \<and> running (fst (snd (upload_file (sim_os build_ok) (upload ''Demo.zip'' ''demo'') sim_empty)))
     = [''demo-container'']"
proof -
  let ?os = "sim_os build_ok"
  let ?f = "\<lparr>filename = ''Demo.zip'', content = ''demo''\<rparr>"
  let ?w1 = "\<lparr>tree_root = [Dir ''uploads'' [File ''Demo.zip''], Dir ''builds'' []],
              blobs = [([''uploads'', ''Demo.zip''], ''demo'')], running = []\<rparr>"
  let ?w2 = "\<lparr>tree_root =
                [Dir ''uploads'' [File ''Demo.zip''],
                 Dir ''builds''
                   [Dir ''Demo''
                      [Dir ''sub'' [Dir ''pkg'' [File ''index.js'', File ''package.json'']]]]],
              blobs = [([''uploads'', ''Demo.zip''], ''demo'')], running = []\<rparr>"
  let ?w3 = "\<lparr>tree_root =
                [Dir ''uploads'' [File ''Demo.zip''],
                 Dir ''builds''
                   [Dir ''Demo''
                      [Dir ''sub'' [Dir ''pkg'' [File ''index.js'', File ''package.json'',
                                               File ''Dockerfile'']]]]],
              blobs = [([''builds'', ''Demo'', ''sub'', ''pkg'', ''Dockerfile''],
                        DEFAULT_DOCKERFILE),
                       ([''uploads'', ''Demo.zip''], ''demo'')],
              running = []\<rparr>"
  let ?w6 = "?w3\<lparr>running := [''demo-container'']\<rparr>"
  let ?p = "''./builds/Demo/sub/pkg/package.json''"
  let ?rm = "\<lparr>returncode = 1, stdout = [], stderr = ''No such container''\<rparr>"
  let ?run = "\<lparr>returncode = 0, stdout = ''c0ffee'', stderr = []\<rparr>"
  have p1: "join UPLOAD_FOLDER (filename ?f) = ''./uploads/Demo.zip''" by code_simp
  have p2: "join BUILD_FOLDER (fst (splitext (filename ?f))) = ''./builds/Demo''" by code_simp
  have p3: "dirname ?p = ''./builds/Demo/sub/pkg''" by code_simp
  have h1: "map_of (files (upload ''Demo.zip'' ''demo'')) ''file'' = Some ?f"
    by (simp add: upload_def)
  have h2: "has_zip_extension (filename ?f)"
    by code_simp
  have h3: "''demo'' = str_lower (lower_table ?os) (fst (splitext (filename ?f)))"
    by code_simp
  have h4: "save ?os (content ?f) (join UPLOAD_FOLDER (filename ?f)) sim_empty = Inr ?w1"
    by code_simp
  have h5: "unpack_archive ?os (join UPLOAD_FOLDER (filename ?f))
              (join BUILD_FOLDER (fst (splitext (filename ?f)))) ?w1 = (None, ?w2)"
    by code_simp
  have h6: "find_file ?os ?w2 (join BUILD_FOLDER (fst (splitext (filename ?f))))
              ''package.json'' = Some ?p"
    by code_simp
  have h7: "ensure_dockerfile ?os ?p ?w2
              = (?w3, [Write ''./builds/Demo/sub/pkg/Dockerfile'' DEFAULT_DOCKERFILE])"
    by code_simp
  have h8: "subprocess_run ?os
              [''docker'', ''build'', ''-t'', ''demo'' @ ''-image'', dirname ?p] ?w3
              = (build_ok, ?w3)"
    by (simp add: sim_os_def sim_run_def)
  have h9: "subprocess_run ?os [''docker'', ''rm'', ''-f'', ''demo'' @ ''-container''] ?w3
              = (?rm, ?w3)"
    by (simp add: sim_os_def sim_run_def)
  have h10: "subprocess_run ?os
               [''docker'', ''run'', ''-d'', ''--name'', ''demo'' @ ''-container'', ''-p'',
                ''3000:3000'', ''demo'' @ ''-image''] ?w3
               = (?run, ?w6)"
    by (simp add: sim_os_def sim_run_def)
  have d: "returncode build_ok = 0" "decode (stdout build_ok) = Inr (stdout build_ok)"
    "decode (stderr build_ok) = Inr (stderr build_ok)"
    by code_simp+
  from derived_names [OF h1 h2 h3 h4 h5 h6 h7 h8 h9 h10]
  have "snd (upload_file ?os (upload ''Demo.zip'' ''demo'') sim_empty) =
           (?w6,
            [Save (join UPLOAD_FOLDER (filename ?f)) (content ?f),
             Unpack (join UPLOAD_FOLDER (filename ?f))
               (join BUILD_FOLDER (fst (splitext (filename ?f))))]
            @ [Write ''./builds/Demo/sub/pkg/Dockerfile'' DEFAULT_DOCKERFILE]
            @ [Run [''docker'', ''build'', ''-t'', ''demo'' @ ''-image'', dirname ?p],
               Run [''docker'', ''rm'', ''-f'', ''demo'' @ ''-container''],
               Run [''docker'', ''run'', ''-d'', ''--name'', ''demo'' @ ''-container'',
                    ''-p'', ''3000:3000'', ''demo'' @ ''-image'']])"
    using d by simp
  then show ?thesis
    unfolding p1 p2 p3 by simp
qed

text \<open>
  C7 as stated takes the base name of the archive with the extension stripped. For the
  accepted filename \<^verbatim>\<open>.zip\<close> that is the empty text, while the handler builds the
  image \<^verbatim>\<open>.zip-image\<close>; for the accepted filename \<^verbatim>\<open>../x.zip\<close> it is \<^verbatim>\<open>x\<close>,
  while the handler builds the image \<^verbatim>\<open>../x-image\<close>.
\<close>

theorem derived_names_counterexample:
  "has_zip_extension ''.zip''
   \<and> spec_base_name ''.zip'' = []
   \<and> Run [''docker'', ''build'', ''-t'', ''.zip-image'', ''./builds/.zip/sub/pkg'']
       \<in> set (snd (snd (upload_file (sim_os build_refused) (upload ''.zip'' ''demo'') sim_empty)))
   \<and> has_zip_extension ''../x.zip''
   \<and> spec_base_name ''../x.zip'' = ''x''
   \<and> Run [''docker'', ''build'', ''-t'', ''../x-image'', ''./builds/../x/sub/pkg'']
       \<in> set (snd (snd (upload_file (sim_os build_refused) (upload ''../x.zip'' ''demo'')
                           sim_empty)))"
  by code_simp

text \<open>
  A name with a capital letter outside ASCII: \<^verbatim>\<open>str.lower\<close> lowers the E with acute
  accent (the bytes \<^verbatim>\<open>C3 89\<close>) to \<^verbatim>\<open>C3 A9\<close> as it lowers the ASCII letters.
\<close>

lemma accented_name_lowered:
  "image_name_of (sim_os build_ok) ([CHR 0xC3, CHR 0x89] @ ''COLE.zip'')
     = [CHR 0xC3, CHR 0xA9] @ ''cole-image''"
  by code_simp

section \<open>Paths made from the client's filename\<close>

lemma join_upload_folder:
  "join UPLOAD_FOLDER fname = (if take 1 fname = ''/'' then fname else ''./uploads/'' @ fname)"
  by (simp add: join_def UPLOAD_FOLDER_def)

lemma join_build_folder:
  "join BUILD_FOLDER base = (if take 1 base = ''/'' then base else ''./builds/'' @ base)"
  by (simp add: join_def BUILD_FOLDER_def)

lemma upload_file_accepted:
  assumes "map_of (files req) ''file'' = Some upl"
    and "allowed_file (filename upl)"
  shows "upload_file os req w =
           (case save os (content upl) (join UPLOAD_FOLDER (filename upl)) w of
              Inl e \<Rightarrow> (Inl e, w, [Save (join UPLOAD_FOLDER (filename upl)) (content upl)])
            | Inr w1 \<Rightarrow>
                (case unpack_archive os (join UPLOAD_FOLDER (filename upl))
                        (join BUILD_FOLDER (fst (splitext (filename upl)))) w1 of
                   (Some e, w2) \<Rightarrow>
                     (Inl e, w2,
                      [Save (join UPLOAD_FOLDER (filename upl)) (content upl),
                       Unpack (join UPLOAD_FOLDER (filename upl))
                         (join BUILD_FOLDER (fst (splitext (filename upl))))])
                 | (None, w2) \<Rightarrow>
                     (fst (deploy_extracted os (filename upl)
                             (join BUILD_FOLDER (fst (splitext (filename upl)))) w2),
                      fst (snd (deploy_extracted os (filename upl)
                             (join BUILD_FOLDER (fst (splitext (filename upl)))) w2)),
                      [Save (join UPLOAD_FOLDER (filename upl)) (content upl),
                       Unpack (join UPLOAD_FOLDER (filename upl))
                         (join BUILD_FOLDER (fst (splitext (filename upl))))]
                      @ snd (snd (deploy_extracted os (filename upl)
                             (join BUILD_FOLDER (fst (splitext (filename upl)))) w2)))))"
  using assms
  by (simp add: upload_file_def allowed_file_nonempty Let_def case_prod_beta
      split: sum.splits option.splits prod.splits)

text \<open>
  C10 (as the code has it). An accepted upload is saved under the uploads directory
  joined with the filename as the client sent it; when saving raises, the run ends with
  that exception and nothing is extracted; when it succeeds, the archive is extracted
  under the builds directory joined with what \<^verbatim>\<open>splitext\<close> keeps of the filename. An
  absolute filename replaces the directory. Validation asks only that \<^verbatim>\<open>zip\<close>, in any
  case of the letters, follows the last dot. So \<^verbatim>\<open>../x.zip\<close> is accepted, and both its
  save path and its extraction path lie outside the configured directories.
\<close>

theorem client_filename_used_verbatim:
  assumes "map_of (files req) ''file'' = Some file"
    and "has_zip_extension (filename file)"
  shows "upload_file os req w =
           (case save os (content file)
                   (if take 1 (filename file) = ''/'' then filename file
                    else ''./uploads/'' @ filename file) w of
              Inl e \<Rightarrow>
                (Inl e, w,
                 [Save (if take 1 (filename file) = ''/'' then filename file
                        else ''./uploads/'' @ filename file) (content file)])
            | Inr w1 \<Rightarrow>
                (case unpack_archive os
                        (if take 1 (filename file) = ''/'' then filename file
                         else ''./uploads/'' @ filename file)
                        (if take 1 (fst (splitext (filename file))) = ''/''
                         then fst (splitext (filename file))
                         else ''./builds/'' @ fst (splitext (filename file))) w1 of
                   (Some e, w2) \<Rightarrow>
                     (Inl e, w2,
                      [Save (if take 1 (filename file) = ''/'' then filename file
                             else ''./uploads/'' @ filename file) (content file),
                       Unpack (if take 1 (filename file) = ''/'' then filename file
                               else ''./uploads/'' @ filename file)
                              (if take 1 (fst (splitext (filename file))) = ''/''
                               then fst (splitext (filename file))
                               else ''./builds/'' @ fst (splitext (filename file)))])
                 | (None, w2) \<Rightarrow>
                     (fst (deploy_extracted os (filename file)
                             (if take 1 (fst (splitext (filename file))) = ''/''
                              then fst (splitext (filename file))
                              else ''./builds/'' @ fst (splitext (filename file))) w2),
                      fst (snd (deploy_extracted os (filename file)
                             (if take 1 (fst (splitext (filename file))) = ''/''
                              then fst (splitext (filename file))
                              else ''./builds/'' @ fst (splitext (filename file))) w2)),
                      [Save (if take 1 (filename file) = ''/'' then filename file
                             else ''./uploads/'' @ filename file) (content file),
                       Unpack (if take 1 (filename file) = ''/'' then filename file
                               else ''./uploads/'' @ filename file)
                              (if take 1 (fst (splitext (filename file))) = ''/''
                               then fst (splitext (filename file))
                               else ''./builds/'' @ fst (splitext (filename file)))]
                      @ snd (snd (deploy_extracted os (filename file)
                             (if take 1 (fst (splitext (filename file))) = ''/''
                              then fst (splitext (filename file))
                              else ''./builds/'' @ fst (splitext (filename file))) w2)))))
       \<and> (allowed_file fname \<longleftrightarrow>
            (\<exists>pre ext. fname = pre @ CHR ''.'' # ext \<and> CHR ''.'' \<notin> set ext
                        \<and> py_lower ext = ''zip''))
       \<and> allowed_file ''../x.zip''
       \<and> \<not> lies_within UPLOAD_FOLDER (join UPLOAD_FOLDER ''../x.zip'')
       \<and> \<not> lies_within BUILD_FOLDER (join BUILD_FOLDER (fst (splitext ''../x.zip'')))"
proof (intro conjI)
  have a: "allowed_file (filename file)"
    using assms(2) by (simp add: allowed_file_has_zip_extension)
  show "upload_file os req w =
           (case save os (content file)
                   (if take 1 (filename file) = ''/'' then filename file
                    else ''./uploads/'' @ filename file) w of
              Inl e \<Rightarrow>
                (Inl e, w,
                 [Save (if take 1 (filename file) = ''/'' then filename file
                        else ''./uploads/'' @ filename file) (content file)])
            | Inr w1 \<Rightarrow>
                (case unpack_archive os
                        (if take 1 (filename file) = ''/'' then filename file
                         else ''./uploads/'' @ filename file)
                        (if take 1 (fst (splitext (filename file))) = ''/''
                         then fst (splitext (filename file))
                         else ''./builds/'' @ fst (splitext (filename file))) w1 of
                   (Some e, w2) \<Rightarrow>
                     (Inl e, w2,
                      [Save (if take 1 (filename file) = ''/'' then filename file
                             else ''./uploads/'' @ filename file) (content file),
                       Unpack (if take 1 (filename file) = ''/'' then filename file
                               else ''./uploads/'' @ filename file)
                              (if take 1 (fst (splitext (filename file))) = ''/''
                               then fst (splitext (filename file))
                               else ''./builds/'' @ fst (splitext (filename file)))])
                 | (None, w2) \<Rightarrow>
                     (fst (deploy_extracted os (filename file)
                             (if take 1 (fst (splitext (filename file))) = ''/''
                              then fst (splitext (filename file))
                              else ''./builds/'' @ fst (splitext (filename file))) w2),
                      fst (snd (deploy_extracted os (filename file)
                             (if take 1 (fst (splitext (filename file))) = ''/''
                              then fst (splitext (filename file))
                              else ''./builds/'' @ fst (splitext (filename file))) w2)),
                      [Save (if take 1 (filename file) = ''/'' then filename file
                             else ''./uploads/'' @ filename file) (content file),
                       Unpack (if take 1 (filename file) = ''/'' then filename file
                               else ''./uploads/'' @ filename file)
                              (if take 1 (fst (splitext (filename file))) = ''/''
                               then fst (splitext (filename file))
                               else ''./builds/'' @ fst (splitext (filename file)))]
                      @ snd (snd (deploy_extracted os (filename file)
                             (if take 1 (fst (splitext (filename file))) = ''/''
                              then fst (splitext (filename file))
                              else ''./builds/'' @ fst (splitext (filename file))) w2)))))"
    using upload_file_accepted [OF assms(1) a, of os w]
    by (simp only: join_upload_folder join_build_folder)
next
  show "allowed_file fname \<longleftrightarrow>
            (\<exists>pre ext. fname = pre @ CHR ''.'' # ext \<and> CHR ''.'' \<notin> set ext
                        \<and> py_lower ext = ''zip'')"
    by (rule allowed_file_iff)
next
  show "allowed_file ''../x.zip''" by code_simp
next
  show "\<not> lies_within UPLOAD_FOLDER (join UPLOAD_FOLDER ''../x.zip'')" by code_simp
next
  show "\<not> lies_within BUILD_FOLDER (join BUILD_FOLDER (fst (splitext ''../x.zip'')))"
    by code_simp
qed

theorem client_filename_used_verbatim_witness:
  "upload_file (sim_os build_ok) (upload ''a/b.zip'' ''demo'') sim_empty
     = (Inl FileNotFoundError, sim_empty, [Save ''./uploads/a/b.zip'' ''demo''])
   \<and> take 2 (snd (snd (upload_file (sim_os build_ok) (upload ''../x.zip'' ''demo'') sim_empty)))
     = [Save ''./uploads/../x.zip'' ''demo'', Unpack ''./uploads/../x.zip'' ''./builds/../x'']
   \<and> tree_root (fst (snd (upload_file (sim_os build_ok) (upload ''../x.zip'' ''demo'') sim_empty)))
     = [Dir ''uploads'' [], Dir ''builds'' [], File ''x.zip'',
        Dir ''x'' [Dir ''sub'' [Dir ''pkg'' [File ''index.js'', File ''package.json'',
                                             File ''Dockerfile'']]]]"
proof -
  let ?os = "sim_os build_ok"
  let ?f = "\<lparr>filename = ''a/b.zip'', content = ''demo''\<rparr>"
  let ?g = "\<lparr>filename = ''../x.zip'', content = ''demo''\<rparr>"
  have f1: "map_of (files (upload ''a/b.zip'' ''demo'')) ''file'' = Some ?f"
    by (simp add: upload_def)
  have f2: "has_zip_extension (filename ?f)" by code_simp
  have g1: "map_of (files (upload ''../x.zip'' ''demo'')) ''file'' = Some ?g"
    by (simp add: upload_def)
  have g2: "has_zip_extension (filename ?g)" by code_simp
  have "upload_file ?os (upload ''a/b.zip'' ''demo'') sim_empty =
           (case save ?os (content ?f)
                   (if take 1 (filename ?f) = ''/'' then filename ?f
                    else ''./uploads/'' @ filename ?f) sim_empty of
              Inl e \<Rightarrow>
                (Inl e, sim_empty,
                 [Save (if take 1 (filename ?f) = ''/'' then filename ?f
                        else ''./uploads/'' @ filename ?f) (content ?f)])
            | Inr w1 \<Rightarrow>
                (case unpack_archive ?os
                        (if take 1 (filename ?f) = ''/'' then filename ?f
                         else ''./uploads/'' @ filename ?f)
                        (if take 1 (fst (splitext (filename ?f))) = ''/''
                         then fst (splitext (filename ?f))
                         else ''./builds/'' @ fst (splitext (filename ?f))) w1 of
                   (Some e, w2) \<Rightarrow>
                     (Inl e, w2,
                      [Save (if take 1 (filename ?f) = ''/'' then filename ?f
                             else ''./uploads/'' @ filename ?f) (content ?f),
                       Unpack (if take 1 (filename ?f) = ''/'' then filename ?f
                               else ''./uploads/'' @ filename ?f)
                              (if take 1 (fst (splitext (filename ?f))) = ''/''
                               then fst (splitext (filename ?f))
                               else ''./builds/'' @ fst (splitext (filename ?f)))])
                 | (None, w2) \<Rightarrow>
                     (fst (deploy_extracted ?os (filename ?f)
                             (if take 1 (fst (splitext (filename ?f))) = ''/''
                              then fst (splitext (filename ?f))
                              else ''./builds/'' @ fst (splitext (filename ?f))) w2),
                      fst (snd (deploy_extracted ?os (filename ?f)
                             (if take 1 (fst (splitext (filename ?f))) = ''/''
                              then fst (splitext (filename ?f))
                              else ''./builds/'' @ fst (splitext (filename ?f))) w2)),
                      [Save (if take 1 (filename ?f) = ''/'' then filename ?f
                             else ''./uploads/'' @ filename ?f) (content ?f),
                       Unpack (if take 1 (filename ?f) = ''/'' then filename ?f
                               else ''./uploads/'' @ filename ?f)
                              (if take 1 (fst (splitext (filename ?f))) = ''/''
                               then fst (splitext (filename ?f))
                               else ''./builds/'' @ fst (splitext (filename ?f)))]
                      @ snd (snd (deploy_extracted ?os (filename ?f)
                             (if take 1 (fst (splitext (filename ?f))) = ''/''
                              then fst (splitext (filename ?f))
                              else ''./builds/'' @ fst (splitext (filename ?f))) w2)))))"
    using client_filename_used_verbatim [OF f1 f2, of ?os sim_empty] by blast
  also have "\<dots> = (Inl FileNotFoundError, sim_empty, [Save ''./uploads/a/b.zip'' ''demo''])"
    by code_simp
  finally have a: "upload_file ?os (upload ''a/b.zip'' ''demo'') sim_empty
     = (Inl FileNotFoundError, sim_empty, [Save ''./uploads/a/b.zip'' ''demo''])" .
  have "upload_file ?os (upload ''../x.zip'' ''demo'') sim_empty =
           (case save ?os (content ?g)
                   (if take 1 (filename ?g) = ''/'' then filename ?g
                    else ''./uploads/'' @ filename ?g) sim_empty of
              Inl e \<Rightarrow>
                (Inl e, sim_empty,
                 [Save (if take 1 (filename ?g) = ''/'' then filename ?g
                        else ''./uploads/'' @ filename ?g) (content ?g)])
            | Inr w1 \<Rightarrow>
                (case unpack_archive ?os
                        (if take 1 (filename ?g) = ''/'' then filename ?g
                         else ''./uploads/'' @ filename ?g)
                        (if take 1 (fst (splitext (filename ?g))) = ''/''
                         then fst (splitext (filename ?g))
                         else ''./builds/'' @ fst (splitext (filename ?g))) w1 of
                   (Some e, w2) \<Rightarrow>
                     (Inl e, w2,
                      [Save (if take 1 (filename ?g) = ''/'' then filename ?g
                             else ''./uploads/'' @ filename ?g) (content ?g),
                       Unpack (if take 1 (filename ?g) = ''/'' then filename ?g
                               else ''./uploads/'' @ filename ?g)
                              (if take 1 (fst (splitext (filename ?g))) = ''/''
                               then fst (splitext (filename ?g))
                               else ''./builds/'' @ fst (splitext (filename ?g)))])
                 | (None, w2) \<Rightarrow>
                     (fst (deploy_extracted ?os (filename ?g)
                             (if take 1 (fst (splitext (filename ?g))) = ''/''
                              then fst (splitext (filename ?g))
                              else ''./builds/'' @ fst (splitext (filename ?g))) w2),
                      fst (snd (deploy_extracted ?os (filename ?g)
                             (if take 1 (fst (splitext (filename ?g))) = ''/''
                              then fst (splitext (filename ?g))
                              else ''./builds/'' @ fst (splitext (filename ?g))) w2)),
                      [Save (if take 1 (filename ?g) = ''/'' then filename ?g
                             else ''./uploads/'' @ filename ?g) (content ?g),
                       Unpack (if take 1 (filename ?g) = ''/'' then filename ?g
                               else ''./uploads/'' @ filename ?g)
                              (if take 1 (fst (splitext (filename ?g))) = ''/''
                               then fst (splitext (filename ?g))
                               else ''./builds/'' @ fst (splitext (filename ?g)))]
                      @ snd (snd (deploy_extracted ?os (filename ?g)
                             (if take 1 (fst (splitext (filename ?g))) = ''/''
                              then fst (splitext (filename ?g))
                              else ''./builds/'' @ fst (splitext (filename ?g))) w2)))))"
    (is "_ = ?rhs")
    using client_filename_used_verbatim [OF g1 g2, of ?os sim_empty] by blast
  moreover have "take 2 (snd (snd ?rhs))
     = [Save ''./uploads/../x.zip'' ''demo'', Unpack ''./uploads/../x.zip'' ''./builds/../x'']"
    by code_simp
  moreover have "tree_root (fst (snd ?rhs))
     = [Dir ''uploads'' [], Dir ''builds'' [], File ''x.zip'',
        Dir ''x'' [Dir ''sub'' [Dir ''pkg'' [File ''index.js'', File ''package.json'',
                                             File ''Dockerfile'']]]]"
    by code_simp
  ultimately show ?thesis using a by simp
qed

text \<open>
  C10 as stated names the bare filename \<^verbatim>\<open>.zip\<close> as one whose paths leave the
  directories. It is accepted, but \<^verbatim>\<open>splitext\<close> strips nothing from a name of leading
  dots: the upload is saved as \<^verbatim>\<open>./uploads/.zip\<close> and extracted to
  \<^verbatim>\<open>./builds/.zip\<close>, both inside.
\<close>

theorem dot_zip_stays_inside:
  "allowed_file ''.zip''
   \<and> join UPLOAD_FOLDER ''.zip'' = ''./uploads/.zip''
   \<and> lies_within UPLOAD_FOLDER (join UPLOAD_FOLDER ''.zip'')
   \<and> join BUILD_FOLDER (fst (splitext ''.zip'')) = ''./builds/.zip''
   \<and> lies_within BUILD_FOLDER (join BUILD_FOLDER (fst (splitext ''.zip'')))"
  by code_simp

section \<open>The successful run\<close>

lemma find_file_Some:
  "(\<exists>p. find_file os w root_path name = Some p) \<longleftrightarrow>
     (\<exists>entries. dir_tree os root_path w = Some entries \<and> contains_file name entries)"
  using find_file_None [of os w root_path name] by (metis option.exhaust option.distinct(1))

lemma find_file_loop_result:
  "find_file_loop triples name = Some p \<Longrightarrow>
   \<exists>root dirs fs. (root, dirs, fs) \<in> set triples \<and> name \<in> set fs \<and> p = join root name"
  by (induction triples name rule: find_file_loop.induct) (auto split: if_splits)

lemma dirname_join:
  assumes "root \<noteq> []" and "last root \<noteq> CHR ''/''" and "CHR ''/'' \<notin> set name"
  shows "dirname (join root name) = root"
proof -
  have ns: "take 1 name \<noteq> ''/''"
    using assms(3) by (cases name) auto
  then have j: "join root name = root @ CHR ''/'' # name"
    using assms(1,2) by (simp add: join_def)
  have r: "rfind CHR ''/'' (root @ CHR ''/'' # name) = int (length root)"
    using assms(3) by (rule rfind_last)
  have nr: "root @ ''/'' \<noteq> replicate (Suc (length root)) CHR ''/''"
  proof
    assume "root @ ''/'' = replicate (Suc (length root)) CHR ''/''"
    then have "set (root @ ''/'') \<subseteq> {CHR ''/''}" by (metis set_replicate_conv_if subset_insertI empty_subsetI order_refl)
    with assms(1,2) show False by (metis last_in_set le_sup_iff set_append singletonD subsetD)
  qed
  have rs: "rstrip CHR ''/'' (root @ ''/'') = root"
    using assms(1,2) by (simp add: rstrip_def) (metis dropWhile_eq_self_iff hd_rev rev_rev_ident)
  have n: "nat (int (length root) + 1) = Suc (length root)" by simp
  have t: "take (Suc (length root)) (root @ CHR ''/'' # name) = root @ ''/''" by simp
  show ?thesis
    unfolding j dirname_def r n Let_def t using nr rs by simp
qed

lemma rfind_lower: "- 1 \<le> rfind c s"
proof (cases "c \<in> set s")
  case True
  then obtain pre ext where "s = pre @ c # ext" "c \<notin> set ext" by (meson split_list_last)
  then show ?thesis by (simp add: rfind_last)
next
  case False
  then show ?thesis by (simp add: rfind_def)
qed

lemma rfind_upper:
  assumes "k < length s" and "s ! k = c"
  shows "int k \<le> rfind c s"
proof -
  from assms have "c \<in> set s" by auto
  then obtain pre ext where d: "s = pre @ c # ext" "c \<notin> set ext" by (meson split_list_last)
  have "k \<le> length pre"
  proof (rule ccontr)
    assume "\<not> k \<le> length pre"
    then have gt: "length pre < k" by simp
    with assms d have "ext ! (k - length pre - 1) = c" "k - length pre - 1 < length ext"
      by (auto simp: nth_append nth_Cons')
    with d(2) show False by (metis nth_mem)
  qed
  with d show ?thesis by (simp add: rfind_last)
qed

lemma rfind_less_length: "rfind c s < int (length s)"
proof (cases "c \<in> set s")
  case True
  then obtain pre ext where "s = pre @ c # ext" "c \<notin> set ext" by (meson split_list_last)
  then show ?thesis by (simp add: rfind_last)
next
  case False
  then show ?thesis by (simp add: rfind_def)
qed

lemma splitext_loop_cases:
  "splitext_loop p i d = (p, []) \<or> (i < d \<and> splitext_loop p i d = (take d p, drop d p))"
proof (induction p i d rule: splitext_loop.induct)
  case (1 p i d)
  show ?case
  proof (cases "i < d")
    case False
    then show ?thesis by (subst splitext_loop.simps) simp
  next
    case True
    show ?thesis
    proof (cases "take 1 (drop i p) \<noteq> ''.''")
      case nd: True
      with True have "splitext_loop p i d = (take d p, drop d p)"
        by (subst splitext_loop.simps) simp
      with True show ?thesis by simp
    next
      case dt: False
      with True have e: "splitext_loop p i d = splitext_loop p (i + 1) d"
        by (subst splitext_loop.simps) simp
      from 1 [OF True] dt have
        "splitext_loop p (i + 1) d = (p, []) \<or>
         (i + 1 < d \<and> splitext_loop p (i + 1) d = (take d p, drop d p))"
        by simp
      with e True show ?thesis by auto
    qed
  qed
qed

lemma splitext_root_end:
  assumes "p \<noteq> []" and "last p \<noteq> CHR ''/''"
  shows "fst (splitext p) \<noteq> [] \<and> last (fst (splitext p)) \<noteq> CHR ''/''"
proof (cases "fst (splitext p) = p")
  case True
  with assms show ?thesis by simp
next
  case False
  define sep where "sep = rfind CHR ''/'' p"
  define dot where "dot = rfind CHR ''.'' p"
  have gt: "dot > sep"
    using False by (auto simp: splitext_def Let_def sep_def dot_def split: if_splits)
  then have s: "splitext p = splitext_loop p (nat (sep + 1)) (nat dot)"
    by (simp add: splitext_def Let_def sep_def dot_def)
  with False splitext_loop_cases [of p "nat (sep + 1)" "nat dot"]
  have lt: "nat (sep + 1) < nat dot" and r: "fst (splitext p) = take (nat dot) p"
    by auto
  have sl: "- 1 \<le> sep" unfolding sep_def by (rule rfind_lower)
  have dl: "dot < int (length p)" unfolding dot_def by (rule rfind_less_length)
  from lt sl have dpos: "0 < nat dot" and sd: "sep + 1 < dot" by auto
  from dl dpos have dlen: "nat dot \<le> length p" "nat dot - 1 < length p" by auto
  have ne: "take (nat dot) p \<noteq> []" using dpos assms(1) by auto
  have la: "last (take (nat dot) p) = p ! (nat dot - 1)"
  proof -
    have "last (take (nat dot) p) = take (nat dot) p ! (length (take (nat dot) p) - 1)"
      using ne by (rule last_conv_nth)
    also have "length (take (nat dot) p) = nat dot" using dlen(1) by simp
    also have "take (nat dot) p ! (nat dot - 1) = p ! (nat dot - 1)"
      using dpos by simp
    finally show ?thesis .
  qed
  have "p ! (nat dot - 1) \<noteq> CHR ''/''"
  proof
    assume "p ! (nat dot - 1) = CHR ''/''"
    with dlen(2) have "int (nat dot - 1) \<le> sep"
      unfolding sep_def by (rule rfind_upper)
    with sd dpos show False by auto
  qed
  with ne la r show ?thesis by simp
qed

lemma has_zip_extension_end:
  assumes "has_zip_extension fname"
  shows "fname \<noteq> [] \<and> last fname \<noteq> CHR ''/''"
proof -
  from has_zip_extension_parts [OF assms] obtain ext where
    e: "fname = take (length fname - 4) fname @ CHR ''.'' # ext" "py_lower ext = ''zip''"
       "CHR ''/'' \<notin> set ext" by blast
  from e(2) have "ext \<noteq> []" by (auto simp: py_lower_def)
  then have le: "last ext \<in> set ext" by (rule last_in_set)
  from \<open>ext \<noteq> []\<close> have "last (take (length fname - 4) fname @ CHR ''.'' # ext) = last ext"
    by simp
  with e(1) have "last fname = last ext" by simp
  with le e(3) have "last fname \<noteq> CHR ''/''" by auto
  moreover from e(1) have "fname \<noteq> []" by auto
  ultimately show ?thesis by simp
qed

lemma join_end:
  assumes "b \<noteq> []" and "last b \<noteq> CHR ''/''"
  shows "join a b \<noteq> [] \<and> last (join a b) \<noteq> CHR ''/''"
  using assms by (simp add: join_def)

lemma extract_path_end:
  assumes "has_zip_extension fname"
  shows "join BUILD_FOLDER (fst (splitext fname)) \<noteq> [] \<and>
         last (join BUILD_FOLDER (fst (splitext fname))) \<noteq> CHR ''/''"
proof -
  from has_zip_extension_end [OF assms] have "fname \<noteq> []" "last fname \<noteq> CHR ''/''" by auto
  then have "fst (splitext fname) \<noteq> [] \<and> last (fst (splitext fname)) \<noteq> CHR ''/''"
    by (rule splitext_root_end)
  then show ?thesis by (intro join_end) auto
qed

lemma walk_roots_end:
  "root \<noteq> [] \<Longrightarrow> last root \<noteq> CHR ''/'' \<Longrightarrow> plain_names es \<Longrightarrow>
     \<forall>(r, ds, fs) \<in> set (walk_dir root es). r \<noteq> [] \<and> last r \<noteq> CHR ''/''"
  "root \<noteq> [] \<Longrightarrow> last root \<noteq> CHR ''/'' \<Longrightarrow> plain_names es \<Longrightarrow>
     \<forall>(r, ds, fs) \<in> set (walk_subdirs root es). r \<noteq> [] \<and> last r \<noteq> CHR ''/''"
proof (induction root es and root es rule: walk_dir_walk_subdirs.induct)
  case (1 root entries)
  then show ?case by (simp add: walk_dir.simps)
next
  case (2 root)
  then show ?case by simp
next
  case (3 root n es)
  then show ?case by simp
next
  case (4 root n sub es)
  from 4(5) have n0: "n \<noteq> []" "CHR ''/'' \<notin> set n" and ps: "plain_names sub" "plain_names es"
    by auto
  from n0 have n: "n \<noteq> []" "last n \<noteq> CHR ''/''"
    by (auto dest: last_in_set)
  from n have "join root n \<noteq> [] \<and> last (join root n) \<noteq> CHR ''/''" by (rule join_end)
  with 4 ps show ?case by auto
qed

text \<open>
  The manifest that \<^verbatim>\<open>find_file\<close> locates lies directly in a directory of the walk, and
  \<^verbatim>\<open>os.path.dirname\<close> of its path is that directory: the Dockerfile is written into it
  and the image is built from it.
\<close>

lemma located_manifest_directory:
  assumes "has_zip_extension fname"
    and "dir_tree os (join BUILD_FOLDER (fst (splitext fname))) w = Some entries"
    and "plain_names entries"
    and "find_file os w (join BUILD_FOLDER (fst (splitext fname))) ''package.json'' = Some p"
  shows "\<exists>r ds fs. (r, ds, fs) \<in> set (walk_dir (join BUILD_FOLDER (fst (splitext fname))) entries)
           \<and> ''package.json'' \<in> set fs \<and> p = join r ''package.json'' \<and> dirname p = r"
proof -
  let ?ep = "join BUILD_FOLDER (fst (splitext fname))"
  from assms(2,4) have "find_file_loop (walk_dir ?ep entries) ''package.json'' = Some p"
    by (simp add: find_file_def os_walk_def)
  from find_file_loop_result [OF this] obtain r ds fs where
    m: "(r, ds, fs) \<in> set (walk_dir ?ep entries)" "''package.json'' \<in> set fs"
       "p = join r ''package.json''"
    by blast
  from extract_path_end [OF assms(1)] assms(3) m(1)
  have "r \<noteq> [] \<and> last r \<noteq> CHR ''/''"
    using walk_roots_end(1) [of ?ep entries] by auto
  then have "dirname (join r ''package.json'') = r"
    by (intro dirname_join) auto
  with m show ?thesis by blast
qed

text \<open>
  The way to the success response: extraction succeeds, the manifest is found, both
  checked commands exit with 0 and their output is UTF-8. The Dockerfile is written beside
  the manifest when none exists there, the image is built from the directory of the
  manifest, the container is started detached with port 3000 published.
\<close>

lemma upload_succeeds:
  assumes "map_of (files req) ''file'' = Some file"
    and "has_zip_extension (filename file)"
    and "save os (content file) (join UPLOAD_FOLDER (filename file)) w = Inr w1"
    and "unpack_archive os (join UPLOAD_FOLDER (filename file))
           (join BUILD_FOLDER (fst (splitext (filename file)))) w1 = (None, w2)"
    and "find_file os w2 (join BUILD_FOLDER (fst (splitext (filename file)))) ''package.json''
           = Some package_json_path"
    and "subprocess_run os (build_cmd (image_name_of os (filename file)) (dirname package_json_path))
           (fst (ensure_dockerfile os package_json_path w2)) = (build_process, w4)"
    and "returncode build_process = 0"
    and "decode (stdout build_process) = Inr out" and "decode (stderr build_process) = Inr err"
    and "subprocess_run os (rm_cmd (container_name_of os (filename file))) w4 = (rm_process, w5)"
    and "subprocess_run os (run_cmd (container_name_of os (filename file))
           (image_name_of os (filename file))) w5 = (run_process, w6)"
    and "returncode run_process = 0"
    and "decode (stdout run_process) = Inr out'" and "decode (stderr run_process) = Inr err'"
  shows "upload_file os req w =
           (Inr (jsonify
              [(''message'', ''File uploaded and Docker container started successfully''),
               (''docker_image'', image_name_of os (filename file)),
               (''docker_container'', container_name_of os (filename file))] 200),
            w6,
            [Save (join UPLOAD_FOLDER (filename file)) (content file),
             Unpack (join UPLOAD_FOLDER (filename file))
               (join BUILD_FOLDER (fst (splitext (filename file))))]
            @ (if path_exists os (join (dirname package_json_path) ''Dockerfile'') w2 then []
               else [Write (join (dirname package_json_path) ''Dockerfile'') DEFAULT_DOCKERFILE])
            @ [Run (build_cmd (image_name_of os (filename file)) (dirname package_json_path)),
               Run (rm_cmd (container_name_of os (filename file))),
               Run (run_cmd (container_name_of os (filename file)) (image_name_of os (filename file)))])"
proof -
  have a: "allowed_file (filename file)"
    using assms(2) by (simp add: allowed_file_has_zip_extension)
  have e: "ensure_dockerfile os package_json_path w2 =
             (fst (ensure_dockerfile os package_json_path w2),
              if path_exists os (join (dirname package_json_path) ''Dockerfile'') w2 then []
              else [Write (join (dirname package_json_path) ''Dockerfile'') DEFAULT_DOCKERFILE])"
    by (simp add: ensure_dockerfile_def Let_def)
  note d = docker_succeeds [OF assms(6-14)]
  show ?thesis
    by (rule upload_docker [OF assms(1) a assms(3) assms(4) assms(5) e d])
qed

text \<open>
  The upload \<^verbatim>\<open>demo.zip\<close> with \<^verbatim>\<open>sub/pkg/package.json\<close> and no Dockerfile, run on
  the small operating system.
\<close>

lemma demo_upload_succeeds:
  "fst (upload_file (sim_os build_ok) (upload ''demo.zip'' ''demo'') sim_empty)
     = Inr (jsonify
         [(''message'', ''File uploaded and Docker container started successfully''),
          (''docker_image'', ''demo-image''),
          (''docker_container'', ''demo-container'')] 200)
   \<and> snd (snd (upload_file (sim_os build_ok) (upload ''demo.zip'' ''demo'') sim_empty))
     = [Save ''./uploads/demo.zip'' ''demo'',
        Unpack ''./uploads/demo.zip'' ''./builds/demo'',
        Write ''./builds/demo/sub/pkg/Dockerfile'' DEFAULT_DOCKERFILE,
        Run [''docker'', ''build'', ''-t'', ''demo-image'', ''./builds/demo/sub/pkg''],
        Run [''docker'', ''rm'', ''-f'', ''demo-container''],
        Run [''docker'', ''run'', ''-d'', ''--name'', ''demo-container'', ''-p'', ''3000:3000'',
             ''demo-image'']]
   \<and> running (fst (snd (upload_file (sim_os build_ok) (upload ''demo.zip'' ''demo'') sim_empty)))
     = [''demo-container'']"
  by code_simp

text \<open>
  C1. An accepted upload that extracts, holds \<^verbatim>\<open>package.json\<close> and whose build and
  run commands exit with 0 is to end with a started container and the success payload.
  Evaluated on a build that exits with 0 and whose standard error is not valid UTF-8:
  the log line 89 decodes it inside the \<^verbatim>\<open>try\<close> block, which catches
  \<^verbatim>\<open>CalledProcessError\<close> only; the handler ends with \<^verbatim>\<open>UnicodeDecodeError\<close> after
  the build, no container is started and no success payload is returned.
\<close>

theorem undecodable_build_output_raises:
  "returncode build_latin1 = 0
   \<and> fst (upload_file (sim_os build_latin1) (upload ''demo.zip'' ''demo'') sim_empty)
       = Inl UnicodeDecodeError
   \<and> running (fst (snd (upload_file (sim_os build_latin1) (upload ''demo.zip'' ''demo'') sim_empty)))
       = []"
  by code_simp

end
